theory Spec2Isabelle
  imports Complex_Main "HOL-Library.Monad_Syntax"
begin

section \<open>Python values: errors, strings, calendar dates\<close>

text \<open>
  Exceptions of the Python source are values: \<open>Inl e\<close> is a raised exception,
  \<open>Inr v\<close> a returned value.  Strings are lists of 8-bit characters: the model is
  that of ASCII text, which the catalog names, the view labels and the formatted dates
  are (for such text \<open>len\<close> is \<open>length\<close>, and the characters are the bytes that
  \<open>quote_plus\<close> and \<open>unquote\<close> work on).
\<close>

datatype py_error = ValueError | KeyError | OverflowError | StreamlitAPIException

text \<open>\<open>s.replace(a, b)\<close> for single-character \<open>a\<close> and \<open>b\<close>.\<close>

fun str_replace :: "char \<Rightarrow> char \<Rightarrow> string \<Rightarrow> string" where
  "str_replace a b [] = []"
| "str_replace a b (c # s) = (if c = a then b else c) # str_replace a b s"

text \<open>
  A \<open>datetime.date\<close>; \<open>datetime.datetime\<close> values are kept at day granularity
  (the time of day of \<open>strptime\<close>'s result is midnight, and \<open>st.date_input\<close>
  works on dates).
\<close>

record date =
  year :: nat
  month :: nat
  day :: nat

definition is_leap :: "nat \<Rightarrow> bool" where
  "is_leap y = (y mod 4 = 0 \<and> (y mod 100 \<noteq> 0 \<or> y mod 400 = 0))"

definition days_in_month :: "nat \<Rightarrow> nat \<Rightarrow> nat" where
  "days_in_month y m =
     (if m = 2 then (if is_leap y then 29 else 28)
      else if m = 4 \<or> m = 6 \<or> m = 9 \<or> m = 11 then 30 else 31)"

text \<open>The range check of the \<open>datetime.date\<close> constructor (MINYEAR = 1, MAXYEAR = 9999).\<close>

definition valid_date :: "date \<Rightarrow> bool" where
  "valid_date d =
     (1 \<le> year d \<and> year d \<le> 9999 \<and> 1 \<le> month d \<and> month d \<le> 12 \<and>
      1 \<le> day d \<and> day d \<le> days_in_month (year d) (month d))"


subsection \<open>\<open>strftime('%Y-%m-%d')\<close>\<close>

text \<open>The decimal digit \<open>n\<close> as a character (code 48 is \<open>0\<close>).\<close>

definition digit_char :: "nat \<Rightarrow> char" where
  "digit_char n = char_of (48 + n)"

definition pad2 :: "nat \<Rightarrow> string" where
  "pad2 n = [digit_char (n div 10 mod 10), digit_char (n mod 10)]"

definition pad4 :: "nat \<Rightarrow> string" where
  "pad4 n = [digit_char (n div 1000 mod 10), digit_char (n div 100 mod 10),
             digit_char (n div 10 mod 10), digit_char (n mod 10)]"

text \<open>
  \<open>d.strftime('%Y-%m-%d')\<close>, with \<open>%Y\<close> the year zero-padded to four digits as the
  Python documentation gives it, \<open>%m\<close> and \<open>%d\<close> zero-padded to two.
\<close>

definition strftime :: "date \<Rightarrow> string" where
  "strftime d = pad4 (year d) @ ''-'' @ pad2 (month d) @ ''-'' @ pad2 (day d)"

subsection \<open>\<open>datetime.strptime(s, '%Y-%m-%d')\<close>\<close>

text \<open>The value of a decimal digit (codes 48 to 57), \<open>None\<close> for any other character.\<close>

definition digit_of :: "char \<Rightarrow> nat option" where
  "digit_of c =
     (let k = (of_char c :: nat) in if 48 \<le> k \<and> k \<le> 57 then Some (k - 48) else None)"

text \<open>
  \<open>strptime\<close> turns the format into the regular expression
  \<^verbatim>\<open>(?P<Y>\d\d\d\d)-(?P<m>1[0-2]|0[1-9]|[1-9])-(?P<d>3[0-1]|[1-2]\d|0[1-9]|[1-9]| [1-9])\<close>,
  matches it at the start of the string and raises \<open>ValueError\<close> when it does not
  match or when text remains after the match.  Each matcher below returns the value of
  its group and the rest of the string; the alternatives are tried in the order of the
  expression.  (An alternative of the month that is followed by no \<open>-\<close> has no later
  alternative that is, so the first one that matches decides.)
\<close>

fun match_Y :: "string \<Rightarrow> (nat \<times> string) option" where
  "match_Y (a # b # c # d # r) =
     (case (digit_of a, digit_of b, digit_of c, digit_of d) of
        (Some p, Some q, Some s, Some t) \<Rightarrow> Some (1000 * p + 100 * q + 10 * s + t, r)
      | _ \<Rightarrow> None)"
| "match_Y _ = None"

fun match_lit :: "char \<Rightarrow> string \<Rightarrow> string option" where
  "match_lit c [] = None"
| "match_lit c (a # r) = (if a = c then Some r else None)"

text \<open>\<open>[1-9]\<close>\<close>

definition nonzero_digit_of :: "char \<Rightarrow> nat option" where
  "nonzero_digit_of c =
     (case digit_of c of None \<Rightarrow> None | Some n \<Rightarrow> (if n = 0 then None else Some n))"

text \<open>\<open>1[0-2]|0[1-9]|[1-9]\<close>\<close>

fun match_m :: "string \<Rightarrow> (nat \<times> string) option" where
  "match_m [] = None"
| "match_m [a] = (case nonzero_digit_of a of None \<Rightarrow> None | Some n \<Rightarrow> Some (n, []))"
| "match_m (a # b # r) =
     (case (digit_of a, digit_of b) of
        (Some p, Some q) \<Rightarrow>
          (if p = 1 \<and> q \<le> 2 then Some (10 + q, r)
           else if p = 0 \<and> q \<noteq> 0 then Some (q, r)
           else if p \<noteq> 0 then Some (p, b # r)
           else None)
      | (Some p, None) \<Rightarrow> (if p \<noteq> 0 then Some (p, b # r) else None)
      | (None, _) \<Rightarrow> None)"

text \<open>\<open>3[0-1]|[1-2]\d|0[1-9]|[1-9]| [1-9]\<close>\<close>

fun match_d :: "string \<Rightarrow> (nat \<times> string) option" where
  "match_d [] = None"
| "match_d [a] = (case nonzero_digit_of a of None \<Rightarrow> None | Some n \<Rightarrow> Some (n, []))"
| "match_d (a # b # r) =
     (case (digit_of a, digit_of b) of
        (Some p, Some q) \<Rightarrow>
          (if p = 3 \<and> q \<le> 1 then Some (30 + q, r)
           else if p = 1 \<or> p = 2 then Some (10 * p + q, r)
           else if p = 0 \<and> q \<noteq> 0 then Some (q, r)
           else if p \<noteq> 0 then Some (p, b # r)
           else None)
      | (Some p, None) \<Rightarrow> (if p \<noteq> 0 then Some (p, b # r) else None)
      | (None, Some q) \<Rightarrow> (if a = CHR '' '' \<and> q \<noteq> 0 then Some (q, r) else None)
      | (None, None) \<Rightarrow> None)"

definition strptime_match :: "string \<Rightarrow> date option" where
  "strptime_match s = do {
     (y, r1) \<leftarrow> match_Y s;
     r2 \<leftarrow> match_lit CHR ''-'' r1;
     (m, r3) \<leftarrow> match_m r2;
     r4 \<leftarrow> match_lit CHR ''-'' r3;
     (d, r5) \<leftarrow> match_d r4;
     if r5 = [] then Some \<lparr>year = y, month = m, day = d\<rparr> else None
   }"

definition strptime :: "string \<Rightarrow> py_error + date" where
  "strptime s =
     (case strptime_match s of
        None \<Rightarrow> Inl ValueError
      | Some d \<Rightarrow> (if valid_date d then Inr d else Inl ValueError))"

subsection \<open>\<open>date - timedelta(days=n)\<close>\<close>

text \<open>
  Python computes \<open>d - timedelta(days=n)\<close> on proleptic Gregorian ordinals
  (0001-01-01 is day 1): \<open>date.fromordinal(d.toordinal() - n)\<close>, raising
  \<open>OverflowError\<close> when the ordinal leaves the range of \<open>date\<close>.
\<close>

definition days_before_year :: "nat \<Rightarrow> nat" where
  "days_before_year y = (let z = y - 1 in z * 365 + z div 4 - z div 100 + z div 400)"

definition DAYS_BEFORE_MONTH :: "nat list" where
  "DAYS_BEFORE_MONTH = [0, 0, 31, 59, 90, 120, 151, 181, 212, 243, 273, 304, 334]"

definition days_before_month :: "nat \<Rightarrow> nat \<Rightarrow> nat" where
  "days_before_month y m =
     DAYS_BEFORE_MONTH ! m + (if 2 < m \<and> is_leap y then 1 else 0)"

definition toordinal :: "date \<Rightarrow> nat" where
  "toordinal d = days_before_year (year d) + days_before_month (year d) (month d) + day d"

definition MAXORDINAL :: nat where
  "MAXORDINAL = 3652059"

definition fromordinal :: "nat \<Rightarrow> date" where
  "fromordinal ordinal =
     (let n0 = ordinal - 1;
          n400 = n0 div 146097; n1 = n0 mod 146097;
          n100 = n1 div 36524; n2 = n1 mod 36524;
          n4 = n2 div 1461; n3 = n2 mod 1461;
          n1y = n3 div 365; n = n3 mod 365;
          y = n400 * 400 + 1 + n100 * 100 + n4 * 4 + n1y
      in if n1y = 4 \<or> n100 = 4 then \<lparr>year = y - 1, month = 12, day = 31\<rparr>
         else
           (let leapyear = (n1y = 3 \<and> (n4 \<noteq> 24 \<or> n100 = 3));
                m0 = (n + 50) div 32;
                preceding0 = DAYS_BEFORE_MONTH ! m0 + (if 2 < m0 \<and> leapyear then 1 else 0);
                m = (if preceding0 > n then m0 - 1 else m0);
                preceding =
                  (if preceding0 > n
                   then preceding0 -
                        ((if m = 2 then 28
                          else if m = 4 \<or> m = 6 \<or> m = 9 \<or> m = 11 then 30 else 31) +
                         (if m = 2 \<and> leapyear then 1 else 0))
                   else preceding0)
            in \<lparr>year = y, month = m, day = n - preceding + 1\<rparr>))"

definition date_minus_days :: "date \<Rightarrow> nat \<Rightarrow> py_error + date" where
  "date_minus_days d n =
     (if n < toordinal d \<and> toordinal d - n \<le> MAXORDINAL
      then Inr (fromordinal (toordinal d - n))
      else Inl OverflowError)"

section \<open>The series catalog and the colour palette\<close>

definition CPI_SERIES :: "(string \<times> string) list" where
  "CPI_SERIES =
     [(''All Items'', ''CPIAUCSL''),
      (''All Items Less Food and Energy'', ''CPILFESL''),
      (''Food and Beverages'', ''CPIFABSL''),
      (''Housing'', ''CPIHOSSL''),
      (''Transportation'', ''CPITRNSL''),
      (''Medical Care'', ''CPIMEDSL''),
      (''Recreation'', ''CPIRECSL''),
      (''Education and Communication'', ''CPIEDUSL''),
      (''Other Goods and Services'', ''CPIOGSSL'')]"

text \<open>\<open>name in CPI_SERIES\<close>: membership among the keys of the dictionary.\<close>

definition in_CPI_SERIES :: "string \<Rightarrow> bool" where
  "in_CPI_SERIES name = (map_of CPI_SERIES name \<noteq> None)"

definition COLOR_PALETTE :: "string list" where
  "COLOR_PALETTE =
     [''#1f77b4'', ''#ff7f0e'', ''#2ca02c'', ''#d62728'', ''#9467bd'',
      ''#8c564b'', ''#e377c2'', ''#7f7f7f'', ''#bcbd22'']"

text \<open>The list of the three view labels (lines 168 and 246).\<close>

definition VIEW_TYPES :: "string list" where
  "VIEW_TYPES = [''Index Values'', ''Year-over-Year Changes'', ''Both'']"

text \<open>The default selection (the list written out at lines 165, 182 and 235).\<close>

definition DEFAULT_SERIES :: "string list" where
  "DEFAULT_SERIES = [''All Items'', ''All Items Less Food and Energy'']"

section \<open>Query parameters\<close>

text \<open>
  \<open>st.query_params\<close>: the parsed query string, a multi-valued mapping kept as the
  list of its (key, value) pairs in the order of the query string.
  \<open>get_all(key)\<close> gives every value of the key in order, \<open>get(key, default)\<close> the
  last one, or the default when the key is missing.
\<close>

type_synonym query_params = "(string \<times> string) list"

definition qp_get_all :: "query_params \<Rightarrow> string \<Rightarrow> string list" where
  "qp_get_all q k = map snd (filter (\<lambda>p. fst p = k) q)"

definition qp_get :: "query_params \<Rightarrow> string \<Rightarrow> string option" where
  "qp_get q k = (case qp_get_all q k of [] \<Rightarrow> None | v # vs \<Rightarrow> Some (last (v # vs)))"

section \<open>\<open>get_url_params\<close>\<close>

record url_params =
  start_date :: "date option"
  end_date :: "date option"
  series :: "string list"
  view_type :: string

text \<open>
  Lines 140-144 and 146-150: the value is parsed only when it is present, non-empty
  and longer than five characters; a \<open>ValueError\<close> of \<open>strptime\<close> is caught (a
  warning is shown) and the date stays \<open>None\<close>; any other exception propagates.
\<close>

definition parse_date_param :: "string option \<Rightarrow> py_error + date option" where
  "parse_date_param v =
     (case v of
        None \<Rightarrow> Inr None
      | Some s \<Rightarrow>
          (if s \<noteq> [] \<and> length s > 5
           then (case strptime s of
                   Inr d \<Rightarrow> Inr (Some d)
                 | Inl ValueError \<Rightarrow> Inr None
                 | Inl e \<Rightarrow> Inl e)
           else Inr None))"

text \<open>Lines 153-161: the loop over \<open>get_all('series')\<close>, appending to \<open>valid_series\<close>.\<close>

fun collect_series :: "string list \<Rightarrow> string list \<Rightarrow> string list" where
  "collect_series valid_series [] = valid_series"
| "collect_series valid_series (s # rest) =
     (let decoded_series = str_replace CHR ''+'' CHR '' '' s
      in if in_CPI_SERIES decoded_series
         then collect_series (valid_series @ [decoded_series]) rest
         else collect_series valid_series rest)"

text \<open>The body of the \<open>try\<close> block, lines 131-176.\<close>

definition get_url_params_try :: "query_params \<Rightarrow> py_error + url_params" where
  "get_url_params_try q =
     (let start_date_str = qp_get q ''start_date'';
          end_date_str = qp_get q ''end_date'';
          view_type0 = (case qp_get q ''view_type'' of None \<Rightarrow> ''Index Values'' | Some v \<Rightarrow> v)
      in case parse_date_param start_date_str of
           Inl e \<Rightarrow> Inl e
         | Inr start_date0 \<Rightarrow>
            (case parse_date_param end_date_str of
               Inl e \<Rightarrow> Inl e
             | Inr end_date0 \<Rightarrow>
                (let valid_series0 = collect_series [] (qp_get_all q ''series'');
                     valid_series1 = (if valid_series0 = [] then DEFAULT_SERIES else valid_series0);
                     view_type1 = (if view_type0 \<notin> set VIEW_TYPES then ''Index Values'' else view_type0)
                 in Inr \<lparr>start_date = start_date0, end_date = end_date0,
                         series = valid_series1, view_type = view_type1\<rparr>)))"

text \<open>The whole function: any exception of the body gives the fixed fallback (lines 177-184).\<close>

definition get_url_params :: "query_params \<Rightarrow> url_params" where
  "get_url_params q =
     (case get_url_params_try q of
        Inr p \<Rightarrow> p
      | Inl e \<Rightarrow> \<lparr>start_date = None, end_date = None,
                  series = DEFAULT_SERIES, view_type = ''Index Values''\<rparr>)"

text \<open>
  What lines 137-150 leave in \<open>start_date\<close> and \<open>end_date\<close>, written without the
  exception plumbing (shown equal to \<open>parse_date_param\<close> below).
\<close>

definition date_of_param :: "string option \<Rightarrow> date option" where
  "date_of_param v =
     (case v of
        None \<Rightarrow> None
      | Some s \<Rightarrow>
          (if length s > 5 then (case strptime s of Inr d \<Rightarrow> Some d | Inl e \<Rightarrow> None)
           else None))"

subsection \<open>\<open>get_url_params\<close> with the warnings it shows\<close>

text \<open>
  The calls of \<open>st.warning\<close> are the output of \<open>get_url_params\<close> beside its result:
  \<open>Invalid start date format: <s>\<close> (line 144), \<open>Invalid end date format: <s>\<close>
  (line 150) and \<open>Error parsing URL parameters: <e>\<close> (line 178).  The function is
  written once more with the list of the warnings shown, in order; its result is that
  of \<open>get_url_params\<close> (proved below).
\<close>

datatype warning =
    Invalid_start_date_format string
  | Invalid_end_date_format string
  | Error_parsing_URL_parameters py_error

definition parse_date_param_io ::
    "(string \<Rightarrow> warning) \<Rightarrow> string option \<Rightarrow> (py_error + date option) \<times> warning list" where
  "parse_date_param_io invalid v =
     (case v of
        None \<Rightarrow> (Inr None, [])
      | Some s \<Rightarrow>
          (if s \<noteq> [] \<and> length s > 5
           then (case strptime s of
                   Inr d \<Rightarrow> (Inr (Some d), [])
                 | Inl ValueError \<Rightarrow> (Inr None, [invalid s])
                 | Inl e \<Rightarrow> (Inl e, []))
           else (Inr None, [])))"

definition get_url_params_io_try :: "query_params \<Rightarrow> (py_error + url_params) \<times> warning list" where
  "get_url_params_io_try q =
     (let start_date_str = qp_get q ''start_date'';
          end_date_str = qp_get q ''end_date'';
          view_type0 = (case qp_get q ''view_type'' of None \<Rightarrow> ''Index Values'' | Some v \<Rightarrow> v);
          (r1, w1) = parse_date_param_io Invalid_start_date_format start_date_str
      in case r1 of
           Inl e \<Rightarrow> (Inl e, w1)
         | Inr start_date0 \<Rightarrow>
            (let (r2, w2) = parse_date_param_io Invalid_end_date_format end_date_str
             in case r2 of
                  Inl e \<Rightarrow> (Inl e, w1 @ w2)
                | Inr end_date0 \<Rightarrow>
                   (let valid_series0 = collect_series [] (qp_get_all q ''series'');
                        valid_series1 =
                          (if valid_series0 = [] then DEFAULT_SERIES else valid_series0);
                        view_type1 =
                          (if view_type0 \<notin> set VIEW_TYPES then ''Index Values'' else view_type0)
                    in (Inr \<lparr>start_date = start_date0, end_date = end_date0,
                             series = valid_series1, view_type = view_type1\<rparr>, w1 @ w2))))"

definition get_url_params_io :: "query_params \<Rightarrow> url_params \<times> warning list" where
  "get_url_params_io q =
     (case get_url_params_io_try q of
        (Inr p, w) \<Rightarrow> (p, w)
      | (Inl e, w) \<Rightarrow>
          (\<lparr>start_date = None, end_date = None,
            series = DEFAULT_SERIES, view_type = ''Index Values''\<rparr>,
           w @ [Error_parsing_URL_parameters e]))"

section \<open>The widget defaults of the page (lines 214-248)\<close>

text \<open>
  \<open>now\<close> is the reading of \<open>datetime.now()\<close>, at day granularity.  The default of
  the start-date widget is the decoded start date, or \<open>now - timedelta(days=365*5)\<close>
  when there is none; the default of the end-date widget is the decoded end date, or
  \<open>now\<close>.
\<close>

definition default_start :: "date \<Rightarrow> url_params \<Rightarrow> py_error + date" where
  "default_start now p =
     (case start_date p of Some d \<Rightarrow> Inr d | None \<Rightarrow> date_minus_days now (365 * 5))"

definition default_end :: "date \<Rightarrow> url_params \<Rightarrow> date" where
  "default_end now p = (case end_date p of Some d \<Rightarrow> d | None \<Rightarrow> now)"

definition default_series :: "url_params \<Rightarrow> string list" where
  "default_series p = (if series p \<noteq> [] then series p else DEFAULT_SERIES)"

definition default_view :: "url_params \<Rightarrow> string" where
  "default_view p = view_type p"



section \<open>\<open>calculate_yoy_change\<close>\<close>

text \<open>
  A data frame is the list of its rows (index, value); the values of a fetched series
  are numbers of a type \<open>'a\<close> whose arithmetic is left to the type (the source computes
  in floating point).  A missing result (pandas' NaN) is \<open>None\<close>.  The input rows
  carry a number each, so the forward fill that \<open>pct_change\<close> may apply to missing
  inputs has nothing to fill.
\<close>

type_synonym ('d, 'a) dataframe = "('d \<times> 'a) list"

definition df_index :: "('d, 'a) dataframe \<Rightarrow> 'd list" where
  "df_index df = map fst df"

definition df_value :: "('d, 'a) dataframe \<Rightarrow> 'a list" where
  "df_value df = map snd df"

text \<open>\<open>Series.shift(periods)\<close>: the values move down by \<open>periods\<close> positions.\<close>

definition shift :: "nat \<Rightarrow> 'a list \<Rightarrow> 'a option list" where
  "shift periods xs =
     replicate (min periods (length xs)) None @ map Some (take (length xs - periods) xs)"

text \<open>\<open>Series.pct_change(periods)\<close>: \<open>data / data.shift(periods) - 1\<close>, position by position.\<close>

definition pct_change :: "nat \<Rightarrow> ('a::{inverse,minus,one}) list \<Rightarrow> 'a option list" where
  "pct_change periods xs =
     map (\<lambda>(v, prev). case prev of None \<Rightarrow> None | Some w \<Rightarrow> Some (v / w - 1))
         (zip xs (shift periods xs))"

definition calculate_yoy_change ::
    "('d, 'a::{inverse,minus,times,numeral}) dataframe \<Rightarrow> 'a option list" where
  "calculate_yoy_change df =
     map (\<lambda>r. case r of None \<Rightarrow> None | Some v \<Rightarrow> Some (v * 100)) (pct_change 12 (df_value df))"

section \<open>\<open>create_plot\<close>\<close>

text \<open>
  The parameter \<open>view_type\<close> of the source is written \<open>view\<close> here.
  The figure is the list of its traces, in the order of the \<open>add_trace\<close> calls, and
  its layout.  A property the source does not set is \<open>None\<close>; a trace without
  \<open>yaxis\<close> is drawn by Plotly on the primary axis \<open>y\<close>.
\<close>

record line_props =
  line_width :: nat
  line_color :: string
  line_dash :: string

record ('d, 'a) scatter =
  trace_x :: "'d list"
  trace_y :: "'a option list"
  trace_name :: string
  trace_line :: line_props
  trace_yaxis :: "string option"

record yaxis2_props =
  yaxis2_overlaying :: string
  yaxis2_side :: string
  yaxis2_title :: string

record layout_props =
  layout_yaxis_title :: "string option"
  layout_yaxis2 :: "yaxis2_props option"
  layout_title :: "string option"
  layout_xaxis_title :: "string option"
  layout_hovermode :: "string option"
  layout_height :: "nat option"

record ('d, 'a) figure =
  fig_data :: "('d, 'a) scatter list"
  fig_layout :: layout_props

definition empty_figure :: "('d, 'a) figure" where
  "empty_figure =
     \<lparr>fig_data = [],
      fig_layout = \<lparr>layout_yaxis_title = None, layout_yaxis2 = None, layout_title = None,
                    layout_xaxis_title = None, layout_hovermode = None,
                    layout_height = None\<rparr>\<rparr>"

definition add_trace :: "('d, 'a) figure \<Rightarrow> ('d, 'a) scatter \<Rightarrow> ('d, 'a) figure" where
  "add_trace fig t = fig\<lparr>fig_data := fig_data fig @ [t]\<rparr>"

definition trace_axis :: "('d, 'a) scatter \<Rightarrow> string" where
  "trace_axis t = (case trace_yaxis t of None \<Rightarrow> ''y'' | Some a \<Rightarrow> a)"

text \<open>
  Lines 69-70: the dictionary comprehension over \<open>enumerate(df_dict.keys())\<close>; a later
  entry of the same key would replace an earlier one.
\<close>

definition series_colors :: "string list \<Rightarrow> (string \<rightharpoonup> string)" where
  "series_colors keys =
     fold (\<lambda>(i, series_name) m.
             m(series_name \<mapsto> COLOR_PALETTE ! (i mod length COLOR_PALETTE)))
          (enumerate 0 keys) Map.empty"

text \<open>Lines 75-84 and 90-100: the two \<open>go.Scatter\<close> calls.\<close>

definition index_trace ::
    "string \<Rightarrow> string \<Rightarrow> string \<Rightarrow> ('d, 'a) dataframe \<Rightarrow> ('d, 'a) scatter" where
  "index_trace view color series_name df =
     \<lparr>trace_x = df_index df,
      trace_y = map Some (df_value df),
      trace_name = series_name @ '' (Index)'',
      trace_line = \<lparr>line_width = 2, line_color = color,
                     line_dash = (if view = ''Both'' then ''dot'' else ''solid'')\<rparr>,
      trace_yaxis = None\<rparr>"

definition yoy_trace ::
    "string \<Rightarrow> string \<Rightarrow> string \<Rightarrow> ('d, 'a::{inverse,minus,times,numeral}) dataframe
     \<Rightarrow> ('d, 'a) scatter" where
  "yoy_trace view color series_name df =
     \<lparr>trace_x = df_index df,
      trace_y = calculate_yoy_change df,
      trace_name = series_name @ '' (YoY %)'',
      trace_line = \<lparr>line_width = 2, line_color = color, line_dash = ''solid''\<rparr>,
      trace_yaxis = Some (if view = ''Both'' then ''y2'' else ''y'')\<rparr>"

text \<open>
  The two iterations over \<open>df_dict.items()\<close>; \<open>series_colors[series_name]\<close> raises
  \<open>KeyError\<close> for a name that is not a key.
\<close>

fun add_index_traces ::
    "(string \<rightharpoonup> string) \<Rightarrow> string \<Rightarrow> ('d, 'a) figure \<Rightarrow> (string \<times> ('d, 'a) dataframe) list
     \<Rightarrow> py_error + ('d, 'a) figure" where
  "add_index_traces colors view fig [] = Inr fig"
| "add_index_traces colors view fig ((series_name, df) # rest) =
     (case colors series_name of
        None \<Rightarrow> Inl KeyError
      | Some c \<Rightarrow>
          add_index_traces colors view
            (add_trace fig (index_trace view c series_name df)) rest)"

fun add_yoy_traces ::
    "(string \<rightharpoonup> string) \<Rightarrow> string \<Rightarrow> ('d, 'a::{inverse,minus,times,numeral}) figure
     \<Rightarrow> (string \<times> ('d, 'a) dataframe) list \<Rightarrow> py_error + ('d, 'a) figure" where
  "add_yoy_traces colors view fig [] = Inr fig"
| "add_yoy_traces colors view fig ((series_name, df) # rest) =
     (case colors series_name of
        None \<Rightarrow> Inl KeyError
      | Some c \<Rightarrow>
          add_yoy_traces colors view
            (add_trace fig (yoy_trace view c series_name df)) rest)"

text \<open>Lines 102-124: the layout updates.\<close>

definition update_axes :: "string \<Rightarrow> layout_props \<Rightarrow> layout_props" where
  "update_axes view l =
     (if view = ''Both''
      then l\<lparr>layout_yaxis_title := Some ''Index Value'',
              layout_yaxis2 := Some \<lparr>yaxis2_overlaying = ''y'', yaxis2_side = ''right'',
                                      yaxis2_title = ''Year-over-Year Change (%)''\<rparr>\<rparr>
      else l\<lparr>layout_yaxis_title :=
                Some (if view = ''Index Values'' then ''Index Value''
                      else ''Year-over-Year Change (%)'')\<rparr>)"

definition update_titles :: "layout_props \<Rightarrow> layout_props" where
  "update_titles l =
     l\<lparr>layout_title := Some ''CPI Data'', layout_xaxis_title := Some ''Date'',
       layout_hovermode := Some ''x unified'', layout_height := Some 600\<rparr>"

text \<open>
  \<open>df_dict\<close> is the list of the items of the dictionary, in insertion order (its keys
  are distinct, as those of a dictionary are).
\<close>

definition create_plot ::
    "(string \<times> ('d, 'a::{inverse,minus,times,numeral}) dataframe) list \<Rightarrow> string
     \<Rightarrow> py_error + ('d, 'a) figure" where
  "create_plot df_dict view =
     (let fig0 = empty_figure;
          colors = series_colors (map fst df_dict)
      in case (if view \<in> set [''Index Values'', ''Both'']
               then add_index_traces colors view fig0 df_dict else Inr fig0) of
           Inl e \<Rightarrow> Inl e
         | Inr fig1 \<Rightarrow>
            (case (if view \<in> set [''Year-over-Year Changes'', ''Both'']
                   then add_yoy_traces colors view fig1 df_dict else Inr fig1) of
               Inl e \<Rightarrow> Inl e
             | Inr fig2 \<Rightarrow>
                 Inr (fig2\<lparr>fig_layout := update_titles (update_axes view (fig_layout fig2))\<rparr>)))"

text \<open>The traces of the figure that \<open>create_plot\<close> returns (none if it raised).\<close>

definition created_traces ::
    "(string \<times> ('d, 'a::{inverse,minus,times,numeral}) dataframe) list \<Rightarrow> string
     \<Rightarrow> ('d, 'a) scatter list" where
  "created_traces df_dict view =
     (case create_plot df_dict view of Inr fig \<Rightarrow> fig_data fig | Inl e \<Rightarrow> [])"

section \<open>\<open>generate_share_url\<close> and the query string\<close>

subsection \<open>\<open>urllib.parse.urlencode(params, doseq=True)\<close>\<close>

text \<open>
  \<open>quote_plus\<close> keeps the unreserved characters (letters, digits and \<open>_.-~\<close>), writes
  a space as \<open>+\<close> and every other character as \<open>%XY\<close> with two upper-case
  hexadecimal digits.
\<close>

definition always_safe :: "char \<Rightarrow> bool" where
  "always_safe c =
     (let k = (of_char c :: nat)
      in (65 \<le> k \<and> k \<le> 90) \<or> (97 \<le> k \<and> k \<le> 122) \<or> (48 \<le> k \<and> k \<le> 57) \<or>
         k = 95 \<or> k = 46 \<or> k = 45 \<or> k = 126)"

definition hex_digit :: "nat \<Rightarrow> char" where
  "hex_digit n = (if n < 10 then char_of (48 + n) else char_of (55 + n))"

definition quote_char :: "char \<Rightarrow> string" where
  "quote_char c =
     (if c = CHR '' '' then ''+''
      else if always_safe c then [c]
      else [CHR ''%'', hex_digit ((of_char c :: nat) div 16), hex_digit ((of_char c :: nat) mod 16)])"

definition quote_plus :: "string \<Rightarrow> string" where
  "quote_plus s = concat (map quote_char s)"

text \<open>\<open>sep.join(parts)\<close>\<close>

fun str_join :: "string \<Rightarrow> string list \<Rightarrow> string" where
  "str_join sep [] = []"
| "str_join sep [x] = x"
| "str_join sep (x # y # ys) = x @ sep @ str_join sep (y # ys)"

text \<open>
  A value of the \<open>params\<close> dictionary is a string or a list of strings; with
  \<open>doseq=True\<close> a list gives one \<open>key=element\<close> field per element, and none when
  it is empty.
\<close>

datatype query_value = Str string | Seq "string list"

fun urlencode_item :: "string \<times> query_value \<Rightarrow> string list" where
  "urlencode_item (k, Str v) = [quote_plus k @ ''='' @ quote_plus v]"
| "urlencode_item (k, Seq vs) = map (\<lambda>elt. quote_plus k @ ''='' @ quote_plus elt) vs"

definition urlencode :: "(string \<times> query_value) list \<Rightarrow> string" where
  "urlencode params = str_join ''&'' (concat (map urlencode_item params))"

subsection \<open>\<open>generate_share_url\<close>\<close>

text \<open>\<open>s.split(c)\<close> for a single-character separator; the result is never empty.\<close>

fun str_split :: "char \<Rightarrow> string \<Rightarrow> string list" where
  "str_split c [] = [[]]"
| "str_split c (x # xs) =
     (if x = c then [] # str_split c xs
      else (case str_split c xs of [] \<Rightarrow> [[x]] | w # ws \<Rightarrow> (x # w) # ws))"

text \<open>Lines 189-192.\<close>

definition base_url :: "query_params \<Rightarrow> string" where
  "base_url q =
     (let current_url = (case qp_get q ''_url'' of None \<Rightarrow> [] | Some u \<Rightarrow> u)
      in if current_url \<noteq> [] then hd (str_split CHR ''?'' current_url) else [])"

text \<open>Lines 195-200; the two dates are those the date widgets returned.\<close>

definition share_params ::
    "date \<Rightarrow> date \<Rightarrow> string list \<Rightarrow> string \<Rightarrow> (string \<times> query_value) list" where
  "share_params d_start d_end selected_series view =
     [(''start_date'', Str (strftime d_start)),
      (''end_date'', Str (strftime d_end)),
      (''series'', Seq selected_series),
      (''view_type'', Str view)]"

definition generate_share_url ::
    "query_params \<Rightarrow> date \<Rightarrow> date \<Rightarrow> string list \<Rightarrow> string \<Rightarrow> string" where
  "generate_share_url q d_start d_end selected_series view =
     base_url q @ ''?'' @ urlencode (share_params d_start d_end selected_series view)"

subsection \<open>From the query string to \<open>st.query_params\<close>: \<open>urllib.parse.parse_qsl\<close>\<close>

text \<open>
  The page is served with the query string parsed by \<open>parse_qs\<close>: the string is
  split at \<open>&\<close>, each non-empty field at its first \<open>=\<close>, and in name and value
  \<open>+\<close> becomes a space and \<open>%XY\<close> the character of that code.  A field with an empty
  value is kept or dropped according to \<open>keep_blank_values\<close>.
\<close>

definition hex_value :: "char \<Rightarrow> nat option" where
  "hex_value c =
     (let k = (of_char c :: nat)
      in if 48 \<le> k \<and> k \<le> 57 then Some (k - 48)
         else if 65 \<le> k \<and> k \<le> 70 then Some (k - 55)
         else if 97 \<le> k \<and> k \<le> 102 then Some (k - 87)
         else None)"

fun unquote :: "string \<Rightarrow> string" where
  "unquote (p # h # l # r) =
     (if p = CHR ''%''
      then (case (hex_value h, hex_value l) of
              (Some a, Some b) \<Rightarrow> char_of (16 * a + b) # unquote r
            | _ \<Rightarrow> p # unquote (h # l # r))
      else p # unquote (h # l # r))"
| "unquote s = s"

definition unquote_plus :: "string \<Rightarrow> string" where
  "unquote_plus s = unquote (str_replace CHR ''+'' CHR '' '' s)"

definition parse_field :: "bool \<Rightarrow> string \<Rightarrow> (string \<times> string) list" where
  "parse_field keep_blank_values name_value =
     (if name_value = [] then []
      else if CHR ''='' \<in> set name_value
        then (let name = takeWhile (\<lambda>c. c \<noteq> CHR ''='') name_value;
                  val = tl (dropWhile (\<lambda>c. c \<noteq> CHR ''='') name_value)
              in if val \<noteq> [] \<or> keep_blank_values
                 then [(unquote_plus name, unquote_plus val)] else [])
      else if keep_blank_values then [(unquote_plus name_value, [])] else [])"

definition parse_qsl :: "bool \<Rightarrow> string \<Rightarrow> query_params" where
  "parse_qsl keep_blank_values qs =
     concat (map (parse_field keep_blank_values) (str_split CHR ''&'' qs))"

text \<open>
  The fields that \<open>urlencode\<close> writes, as (key, value) pairs before quoting, and the
  text of one field.
\<close>

fun item_fields :: "string \<times> query_value \<Rightarrow> (string \<times> string) list" where
  "item_fields (k, Str v) = [(k, v)]"
| "item_fields (k, Seq vs) = map (Pair k) vs"

definition query_fields :: "(string \<times> query_value) list \<Rightarrow> (string \<times> string) list" where
  "query_fields params = concat (map item_fields params)"

definition encode_field :: "string \<times> string \<Rightarrow> string" where
  "encode_field f = quote_plus (fst f) @ ''='' @ quote_plus (snd f)"


section \<open>Decoding: basic facts\<close>

lemma str_replace_map: "str_replace a b s = map (\<lambda>c. if c = a then b else c) s"
  by (induction s) simp_all

lemma collect_series_filter:
  "collect_series acc xs = acc @ filter in_CPI_SERIES (map (str_replace CHR ''+'' CHR '' '') xs)"
  by (induction xs arbitrary: acc) (simp_all add: Let_def)

lemma in_CPI_SERIES_keys: "in_CPI_SERIES name = (name \<in> set (map fst CPI_SERIES))"
  by (simp add: in_CPI_SERIES_def map_of_eq_None_iff)

lemma strptime_only_ValueError: "strptime s = Inl e \<Longrightarrow> e = ValueError"
  by (auto simp: strptime_def split: option.splits if_splits)

lemma parse_date_param_Inr: "parse_date_param v = Inr (date_of_param v)"
proof (cases v)
  case None
  then show ?thesis by (simp add: parse_date_param_def date_of_param_def)
next
  case (Some s)
  show ?thesis
  proof (cases "strptime s")
    case (Inl e)
    then have "e = ValueError" by (rule strptime_only_ValueError)
    with Inl Some show ?thesis by (auto simp: parse_date_param_def date_of_param_def)
  next
    case (Inr d)
    with Some show ?thesis by (auto simp: parse_date_param_def date_of_param_def)
  qed
qed

text \<open>The body of the \<open>try\<close> block always returns; the handler of line 177 is never entered.\<close>

lemma get_url_params_try_Inr:
  "get_url_params_try q =
     Inr \<lparr>start_date = date_of_param (qp_get q ''start_date''),
          end_date = date_of_param (qp_get q ''end_date''),
          series = (if collect_series [] (qp_get_all q ''series'') = [] then DEFAULT_SERIES
                    else collect_series [] (qp_get_all q ''series'')),
          view_type = (case qp_get q ''view_type'' of None \<Rightarrow> ''Index Values''
                       | Some v \<Rightarrow> if v \<in> set VIEW_TYPES then v else ''Index Values'')\<rparr>"
  by (simp add: get_url_params_try_def parse_date_param_Inr Let_def VIEW_TYPES_def split: option.splits)

lemma get_url_params_fields:
  "get_url_params q =
     \<lparr>start_date = date_of_param (qp_get q ''start_date''),
      end_date = date_of_param (qp_get q ''end_date''),
      series = (if collect_series [] (qp_get_all q ''series'') = [] then DEFAULT_SERIES
                else collect_series [] (qp_get_all q ''series'')),
      view_type = (case qp_get q ''view_type'' of None \<Rightarrow> ''Index Values''
                   | Some v \<Rightarrow> if v \<in> set VIEW_TYPES then v else ''Index Values'')\<rparr>"
  by (simp add: get_url_params_def get_url_params_try_Inr)

section \<open>The series filter\<close>

text \<open>
  Claim C3.  For every multi-valued \<open>series\<close> query parameter, \<open>get_url_params\<close>
  replaces each \<open>+\<close> by a space in each value, keeps exactly the values that are then
  keys of \<open>CPI_SERIES\<close>, in their given order, drops the others, and returns the pair
  \<open>All Items\<close>, \<open>All Items Less Food and Energy\<close> when none is left.
\<close>

theorem series_filter:
  "series (get_url_params q) =
     (if filter (\<lambda>name. name \<in> set (map fst CPI_SERIES))
           (map (map (\<lambda>c. if c = CHR ''+'' then CHR '' '' else c)) (qp_get_all q ''series'')) = []
      then [''All Items'', ''All Items Less Food and Energy'']
      else filter (\<lambda>name. name \<in> set (map fst CPI_SERIES))
           (map (map (\<lambda>c. if c = CHR ''+'' then CHR '' '' else c)) (qp_get_all q ''series'')))"
proof -
  have r: "str_replace CHR ''+'' CHR '' '' = map (\<lambda>c. if c = CHR ''+'' then CHR '' '' else c)"
    by (rule ext) (rule str_replace_map)
  have k: "in_CPI_SERIES = (\<lambda>name. name \<in> set (map fst CPI_SERIES))"
    by (rule ext) (rule in_CPI_SERIES_keys)
  show ?thesis
    by (simp only: get_url_params_fields url_params.simps collect_series_filter append_Nil r k
          DEFAULT_SERIES_def)
qed

theorem series_filter_witness:
  "series (get_url_params [(''series'', ''All+Items''), (''series'', ''Bogus'')]) = [''All Items'']
   \<and> series (get_url_params [(''series'', ''Bogus'')])
       = [''All Items'', ''All Items Less Food and Energy'']"
  using series_filter [of "[(''series'', ''All+Items''), (''series'', ''Bogus'')]"]
        series_filter [of "[(''series'', ''Bogus'')]"]
  by (simp add: qp_get_all_def CPI_SERIES_def)

section \<open>The year-over-year change\<close>

lemma length_shift: "length (shift k xs) = length xs"
  by (simp add: shift_def)

lemma shift_nth:
  "i < length xs \<Longrightarrow> shift k xs ! i = (if i < k then None else Some (xs ! (i - k)))"
proof (cases "i < k")
  case True
  assume "i < length xs"
  with True show ?thesis by (simp add: shift_def nth_append)
next
  case False
  assume i: "i < length xs"
  with False have j: "i - k < length xs - k" by arith
  from False i have m: "min k (length xs) = k" by simp
  from False j show ?thesis by (simp add: shift_def nth_append m)
qed

lemma length_pct_change: "length (pct_change k xs) = length xs"
  by (simp add: pct_change_def length_shift)

lemma pct_change_nth:
  "i < length xs \<Longrightarrow>
   pct_change k xs ! i = (if i < k then None else Some (xs ! i / xs ! (i - k) - 1))"
  by (simp add: pct_change_def length_shift shift_nth)

lemma length_calculate_yoy_change: "length (calculate_yoy_change df) = length df"
  by (simp add: calculate_yoy_change_def length_pct_change df_value_def)

text \<open>
  Claim C4.  For every series of index values, the year-over-year change has one
  entry per observation; at each position \<open>i \<ge> 12\<close> it is
  \<open>(value[i] / value[i-12] - 1) * 100\<close>, and at each position with fewer than 12
  earlier observations it is missing (\<open>None\<close>: neither zero nor an error).
\<close>

theorem yoy_change_positions:
  fixes df :: "('d, 'a::{inverse,minus,times,numeral}) dataframe"
  shows "length (calculate_yoy_change df) = length df \<and>
    (\<forall>i < length df.
       (12 \<le> i \<longrightarrow> calculate_yoy_change df ! i
                      = Some ((df_value df ! i / df_value df ! (i - 12) - 1) * 100)) \<and>
       (i < 12 \<longrightarrow> calculate_yoy_change df ! i = None))"
  by (simp add: calculate_yoy_change_def length_pct_change pct_change_nth df_value_def)

theorem yoy_change_positions_witness:
  "calculate_yoy_change (map (\<lambda>i. (i, 100 + real i)) [0..<24]) ! 12 = Some 12 \<and>
   calculate_yoy_change (map (\<lambda>i. (i, 100 + real i)) [0..<24]) ! 11 = None \<and>
   length (calculate_yoy_change (map (\<lambda>i. (i, 100 + real i)) [0..<24])) = 24"
proof -
  let ?df = "map (\<lambda>i. (i, 100 + real i)) [0..<24]"
  note t = yoy_change_positions [of ?df]
  from t have len: "length (calculate_yoy_change ?df) = 24" by simp
  from t have a: "calculate_yoy_change ?df ! 12
        = Some ((df_value ?df ! 12 / df_value ?df ! (12 - 12) - 1) * 100)"
    by simp
  from t have b: "calculate_yoy_change ?df ! 11 = None" by simp
  have v: "df_value ?df ! 12 = 112" "df_value ?df ! (12 - 12) = 100"
    by (simp_all add: df_value_def)
  from a v len b show ?thesis by simp
qed

section \<open>The chart builder\<close>

lemma length_COLOR_PALETTE: "length COLOR_PALETTE = 9"
  by (simp add: COLOR_PALETTE_def)

lemma series_colors_snoc:
  "series_colors (ks @ [k]) =
     (series_colors ks)(k \<mapsto> COLOR_PALETTE ! (length ks mod length COLOR_PALETTE))"
  by (simp add: series_colors_def enumerate_append_eq)

lemma dom_series_colors: "dom (series_colors ks) = set ks"
proof (induction ks rule: rev_induct)
  case Nil
  show ?case by (simp add: series_colors_def)
next
  case (snoc k ks)
  have "dom (series_colors (ks @ [k])) = insert k (dom (series_colors ks))"
    unfolding series_colors_snoc by (subst dom_fun_upd) simp
  with snoc show ?case by simp
qed

lemma series_colors_nth:
  "distinct ks \<Longrightarrow> i < length ks \<Longrightarrow>
   series_colors ks (ks ! i) = Some (COLOR_PALETTE ! (i mod length COLOR_PALETTE))"
proof (induction ks rule: rev_induct)
  case Nil
  then show ?case by simp
next
  case (snoc k ks)
  show ?case
  proof (cases "i < length ks")
    case True
    with snoc.prems have "ks ! i \<noteq> k" by (auto simp: in_set_conv_nth)
    with True snoc show ?thesis by (simp add: series_colors_snoc nth_append)
  next
    case False
    with snoc.prems have "i = length ks" by simp
    then show ?thesis by (simp add: series_colors_snoc)
  qed
qed

lemma add_index_traces_map:
  "\<forall>k \<in> set (map fst d). colors k \<noteq> None \<Longrightarrow>
   add_index_traces colors view fig d =
     Inr (fig\<lparr>fig_data := fig_data fig @
            map (\<lambda>(n, df). index_trace view (the (colors n)) n df) d\<rparr>)"
proof (induction d arbitrary: fig)
  case Nil
  show ?case by simp
next
  case (Cons a d)
  obtain n df where a: "a = (n, df)" by (cases a)
  from Cons.prems a obtain c where c: "colors n = Some c" by auto
  from Cons.prems have "\<forall>k \<in> set (map fst d). colors k \<noteq> None" by simp
  from Cons.IH [OF this] a c show ?case by (simp add: add_trace_def)
qed

lemma add_yoy_traces_map:
  "\<forall>k \<in> set (map fst d). colors k \<noteq> None \<Longrightarrow>
   add_yoy_traces colors view fig d =
     Inr (fig\<lparr>fig_data := fig_data fig @
            map (\<lambda>(n, df). yoy_trace view (the (colors n)) n df) d\<rparr>)"
proof (induction d arbitrary: fig)
  case Nil
  show ?case by simp
next
  case (Cons a d)
  obtain n df where a: "a = (n, df)" by (cases a)
  from Cons.prems a obtain c where c: "colors n = Some c" by auto
  from Cons.prems have "\<forall>k \<in> set (map fst d). colors k \<noteq> None" by simp
  from Cons.IH [OF this] a c show ?case by (simp add: add_trace_def)
qed

lemma create_plot_eq:
  "create_plot d view =
     Inr \<lparr>fig_data =
            (if view = ''Index Values'' \<or> view = ''Both''
             then map (\<lambda>(n, df). index_trace view (the (series_colors (map fst d) n)) n df) d
             else []) @
            (if view = ''Year-over-Year Changes'' \<or> view = ''Both''
             then map (\<lambda>(n, df). yoy_trace view (the (series_colors (map fst d) n)) n df) d
             else []),
          fig_layout = update_titles (update_axes view (fig_layout empty_figure))\<rparr>"
proof -
  have k: "\<forall>k \<in> set (map fst d). series_colors (map fst d) k \<noteq> None"
    using dom_series_colors [of "map fst d"] by blast
  show ?thesis
    unfolding create_plot_def Let_def
    by (simp add: add_index_traces_map [OF k] add_yoy_traces_map [OF k] empty_figure_def)
qed

lemma create_plot_fig:
  "\<exists>fig. create_plot d view = Inr fig \<and>
     fig_data fig =
       (if view = ''Index Values'' \<or> view = ''Both''
        then map (\<lambda>(n, df). index_trace view (the (series_colors (map fst d) n)) n df) d
        else []) @
       (if view = ''Year-over-Year Changes'' \<or> view = ''Both''
        then map (\<lambda>(n, df). yoy_trace view (the (series_colors (map fst d) n)) n df) d
        else []) \<and>
     fig_layout fig = update_titles (update_axes view (fig_layout empty_figure))"
  by (subst create_plot_eq) simp

text \<open>
  Claim C7.  For every input mapping and view mode, \<open>create_plot\<close> returns a figure
  whose traces follow the iteration order of the input: the index-value traces of all
  series in input order (modes \<open>Index Values\<close> and \<open>Both\<close>), followed by the
  year-over-year traces of all series in input order (modes
  \<open>Year-over-Year Changes\<close> and \<open>Both\<close>); in mode \<open>Both\<close> every index-value trace
  comes before every year-over-year trace.
\<close>

theorem trace_order:
  "\<exists>fig. create_plot d view = Inr fig \<and>
     map (\<lambda>t. (trace_name t, trace_x t, trace_y t)) (fig_data fig) =
       (if view = ''Index Values'' \<or> view = ''Both''
        then map (\<lambda>(n, df). (n @ '' (Index)'', df_index df, map Some (df_value df))) d
        else []) @
       (if view = ''Year-over-Year Changes'' \<or> view = ''Both''
        then map (\<lambda>(n, df). (n @ '' (YoY %)'', df_index df, calculate_yoy_change df)) d
        else [])"
proof -
  from create_plot_fig [of d view] obtain fig where
    r: "create_plot d view = Inr fig" and
    t: "fig_data fig =
       (if view = ''Index Values'' \<or> view = ''Both''
        then map (\<lambda>(n, df). index_trace view (the (series_colors (map fst d) n)) n df) d
        else []) @
       (if view = ''Year-over-Year Changes'' \<or> view = ''Both''
        then map (\<lambda>(n, df). yoy_trace view (the (series_colors (map fst d) n)) n df) d
        else [])"
    by blast
  have "map (\<lambda>t. (trace_name t, trace_x t, trace_y t)) (fig_data fig) =
       (if view = ''Index Values'' \<or> view = ''Both''
        then map (\<lambda>(n, df). (n @ '' (Index)'', df_index df, map Some (df_value df))) d
        else []) @
       (if view = ''Year-over-Year Changes'' \<or> view = ''Both''
        then map (\<lambda>(n, df). (n @ '' (YoY %)'', df_index df, calculate_yoy_change df)) d
        else [])"
    unfolding t by (simp add: index_trace_def yoy_trace_def split_def)
  with r show ?thesis by blast
qed

lemma both_traces:
  assumes "distinct (map fst d)" and "i < length d"
  shows "(map (\<lambda>(n, df). index_trace view (the (series_colors (map fst d) n)) n df) d @
          map (\<lambda>(n, df). yoy_trace view (the (series_colors (map fst d) n)) n df) d) ! i
           = index_trace view (COLOR_PALETTE ! (i mod 9)) (fst (d ! i)) (snd (d ! i))"
    and "(map (\<lambda>(n, df). index_trace view (the (series_colors (map fst d) n)) n df) d @
          map (\<lambda>(n, df). yoy_trace view (the (series_colors (map fst d) n)) n df) d) ! (length d + i)
           = yoy_trace view (COLOR_PALETTE ! (i mod 9)) (fst (d ! i)) (snd (d ! i))"
proof -
  from assms series_colors_nth [of "map fst d" i]
  have c: "series_colors (map fst d) (fst (d ! i)) = Some (COLOR_PALETTE ! (i mod 9))"
    by (simp add: length_COLOR_PALETTE)
  from assms(2) c show
    "(map (\<lambda>(n, df). index_trace view (the (series_colors (map fst d) n)) n df) d @
      map (\<lambda>(n, df). yoy_trace view (the (series_colors (map fst d) n)) n df) d) ! i
       = index_trace view (COLOR_PALETTE ! (i mod 9)) (fst (d ! i)) (snd (d ! i))"
    by (simp add: nth_append split_def)
  from assms(2) c show
    "(map (\<lambda>(n, df). index_trace view (the (series_colors (map fst d) n)) n df) d @
      map (\<lambda>(n, df). yoy_trace view (the (series_colors (map fst d) n)) n df) d) ! (length d + i)
       = yoy_trace view (COLOR_PALETTE ! (i mod 9)) (fst (d ! i)) (snd (d ! i))"
    by (simp add: nth_append split_def)
qed

lemma single_mode_traces:
  assumes "distinct (map fst d)" and "i < length d"
  shows "map (\<lambda>(n, df). index_trace view (the (series_colors (map fst d) n)) n df) d ! i
           = index_trace view (COLOR_PALETTE ! (i mod 9)) (fst (d ! i)) (snd (d ! i))"
    and "map (\<lambda>(n, df). yoy_trace view (the (series_colors (map fst d) n)) n df) d ! i
           = yoy_trace view (COLOR_PALETTE ! (i mod 9)) (fst (d ! i)) (snd (d ! i))"
proof -
  from assms series_colors_nth [of "map fst d" i]
  have c: "series_colors (map fst d) (fst (d ! i)) = Some (COLOR_PALETTE ! (i mod 9))"
    by (simp add: length_COLOR_PALETTE)
  from assms(2) c show
    "map (\<lambda>(n, df). index_trace view (the (series_colors (map fst d) n)) n df) d ! i
       = index_trace view (COLOR_PALETTE ! (i mod 9)) (fst (d ! i)) (snd (d ! i))"
    by (simp add: split_def)
  from assms(2) c show
    "map (\<lambda>(n, df). yoy_trace view (the (series_colors (map fst d) n)) n df) d ! i
       = yoy_trace view (COLOR_PALETTE ! (i mod 9)) (fst (d ! i)) (snd (d ! i))"
    by (simp add: split_def)
qed

text \<open>
  Claim C5.  For every mapping of named series given to \<open>create_plot\<close> (the list of
  its items, keys distinct) and each of the three view modes, the series at position
  \<open>i\<close> of the iteration order is assigned the palette colour at index \<open>i mod 9\<close>,
  and every trace of that series in the returned figure is drawn in that colour.  The
  figure is a function of the input list, so the same series in the same order get the
  same colours on every call.
\<close>

theorem color_by_position:
  assumes "distinct (map fst df_dict)" and "i < length df_dict"
  shows "series_colors (map fst df_dict) (fst (df_dict ! i)) = Some (COLOR_PALETTE ! (i mod 9)) \<and>
    (\<exists>fig. create_plot df_dict ''Index Values'' = Inr fig \<and>
       length (fig_data fig) = length df_dict \<and>
       trace_name (fig_data fig ! i) = fst (df_dict ! i) @ '' (Index)'' \<and>
       line_color (trace_line (fig_data fig ! i)) = COLOR_PALETTE ! (i mod 9)) \<and>
    (\<exists>fig. create_plot df_dict ''Year-over-Year Changes'' = Inr fig \<and>
       length (fig_data fig) = length df_dict \<and>
       trace_name (fig_data fig ! i) = fst (df_dict ! i) @ '' (YoY %)'' \<and>
       line_color (trace_line (fig_data fig ! i)) = COLOR_PALETTE ! (i mod 9)) \<and>
    (\<exists>fig. create_plot df_dict ''Both'' = Inr fig \<and>
       length (fig_data fig) = 2 * length df_dict \<and>
       trace_name (fig_data fig ! i) = fst (df_dict ! i) @ '' (Index)'' \<and>
       line_color (trace_line (fig_data fig ! i)) = COLOR_PALETTE ! (i mod 9) \<and>
       trace_name (fig_data fig ! (length df_dict + i)) = fst (df_dict ! i) @ '' (YoY %)'' \<and>
       line_color (trace_line (fig_data fig ! (length df_dict + i))) = COLOR_PALETTE ! (i mod 9))"
proof (intro conjI)
  show "series_colors (map fst df_dict) (fst (df_dict ! i)) = Some (COLOR_PALETTE ! (i mod 9))"
    using assms series_colors_nth [of "map fst df_dict" i] by (simp add: length_COLOR_PALETTE)
next
  from create_plot_fig [of df_dict "''Index Values''"] obtain fig where
    r: "create_plot df_dict ''Index Values'' = Inr fig" and
    t: "fig_data fig = map (\<lambda>(n, df). index_trace ''Index Values''
          (the (series_colors (map fst df_dict) n)) n df) df_dict"
    by auto
  have "length (fig_data fig) = length df_dict" unfolding t by simp
  moreover have "fig_data fig ! i = index_trace ''Index Values'' (COLOR_PALETTE ! (i mod 9))
      (fst (df_dict ! i)) (snd (df_dict ! i))"
    unfolding t by (rule single_mode_traces(1) [OF assms])
  ultimately show "\<exists>fig. create_plot df_dict ''Index Values'' = Inr fig \<and>
       length (fig_data fig) = length df_dict \<and>
       trace_name (fig_data fig ! i) = fst (df_dict ! i) @ '' (Index)'' \<and>
       line_color (trace_line (fig_data fig ! i)) = COLOR_PALETTE ! (i mod 9)"
    using r by (simp add: index_trace_def)
next
  from create_plot_fig [of df_dict "''Year-over-Year Changes''"] obtain fig where
    r: "create_plot df_dict ''Year-over-Year Changes'' = Inr fig" and
    t: "fig_data fig = map (\<lambda>(n, df). yoy_trace ''Year-over-Year Changes''
          (the (series_colors (map fst df_dict) n)) n df) df_dict"
    by auto
  have "length (fig_data fig) = length df_dict" unfolding t by simp
  moreover have "fig_data fig ! i = yoy_trace ''Year-over-Year Changes''
      (COLOR_PALETTE ! (i mod 9)) (fst (df_dict ! i)) (snd (df_dict ! i))"
    unfolding t by (rule single_mode_traces(2) [OF assms])
  ultimately show "\<exists>fig. create_plot df_dict ''Year-over-Year Changes'' = Inr fig \<and>
       length (fig_data fig) = length df_dict \<and>
       trace_name (fig_data fig ! i) = fst (df_dict ! i) @ '' (YoY %)'' \<and>
       line_color (trace_line (fig_data fig ! i)) = COLOR_PALETTE ! (i mod 9)"
    using r by (simp add: yoy_trace_def)
next
  from create_plot_fig [of df_dict "''Both''"] obtain fig where
    r: "create_plot df_dict ''Both'' = Inr fig" and
    t: "fig_data fig =
        map (\<lambda>(n, df). index_trace ''Both'' (the (series_colors (map fst df_dict) n)) n df) df_dict @
        map (\<lambda>(n, df). yoy_trace ''Both'' (the (series_colors (map fst df_dict) n)) n df) df_dict"
    by auto
  have "length (fig_data fig) = 2 * length df_dict" unfolding t by simp
  moreover have "fig_data fig ! i = index_trace ''Both'' (COLOR_PALETTE ! (i mod 9))
      (fst (df_dict ! i)) (snd (df_dict ! i))"
    unfolding t by (rule both_traces(1) [OF assms])
  moreover have "fig_data fig ! (length df_dict + i) = yoy_trace ''Both''
      (COLOR_PALETTE ! (i mod 9)) (fst (df_dict ! i)) (snd (df_dict ! i))"
    unfolding t by (rule both_traces(2) [OF assms])
  ultimately show "\<exists>fig. create_plot df_dict ''Both'' = Inr fig \<and>
       length (fig_data fig) = 2 * length df_dict \<and>
       trace_name (fig_data fig ! i) = fst (df_dict ! i) @ '' (Index)'' \<and>
       line_color (trace_line (fig_data fig ! i)) = COLOR_PALETTE ! (i mod 9) \<and>
       trace_name (fig_data fig ! (length df_dict + i)) = fst (df_dict ! i) @ '' (YoY %)'' \<and>
       line_color (trace_line (fig_data fig ! (length df_dict + i))) = COLOR_PALETTE ! (i mod 9)"
    using r by (simp add: index_trace_def yoy_trace_def)
qed

theorem color_by_position_witness:
  "length (created_traces [(''A'', [(0::nat, 1::real)]), (''B'', [])] ''Index Values'') = 2 \<and>
   trace_name (created_traces [(''A'', [(0::nat, 1::real)]), (''B'', [])] ''Index Values'' ! 0)
     = ''A (Index)'' \<and>
   line_color (trace_line
       (created_traces [(''A'', [(0::nat, 1::real)]), (''B'', [])] ''Index Values'' ! 0))
     = ''#1f77b4'' \<and>
   trace_name (created_traces [(''A'', [(0::nat, 1::real)]), (''B'', [])] ''Index Values'' ! 1)
     = ''B (Index)'' \<and>
   line_color (trace_line
       (created_traces [(''A'', [(0::nat, 1::real)]), (''B'', [])] ''Index Values'' ! 1))
     = ''#ff7f0e''"
proof -
  let ?d = "[(''A'', [(0::nat, 1::real)]), (''B'', [])]"
  have dist: "distinct (map fst ?d)" by simp
  have i0: "0 < length ?d" and i1: "1 < length ?d" by simp_all
  from color_by_position [OF dist i0] obtain f0 where
    r0: "create_plot ?d ''Index Values'' = Inr f0" and
    l0: "length (fig_data f0) = length ?d" and
    n0: "trace_name (fig_data f0 ! 0) = fst (?d ! 0) @ '' (Index)''" and
    c0: "line_color (trace_line (fig_data f0 ! 0)) = COLOR_PALETTE ! (0 mod 9)"
    by blast
  from color_by_position [OF dist i1] obtain f1 where
    r1: "create_plot ?d ''Index Values'' = Inr f1" and
    n1: "trace_name (fig_data f1 ! 1) = fst (?d ! 1) @ '' (Index)''" and
    c1: "line_color (trace_line (fig_data f1 ! 1)) = COLOR_PALETTE ! (1 mod 9)"
    by blast
  from r0 r1 have same: "f1 = f0" by simp
  from l0 have "length (fig_data f0) = 2" by simp
  then obtain a b where ab: "fig_data f0 = [a, b]"
    by (cases "fig_data f0"; cases "tl (fig_data f0)") auto
  from n0 c0 n1 c1 have
    "trace_name a = ''A (Index)''" "line_color (trace_line a) = ''#1f77b4''"
    "trace_name b = ''B (Index)''" "line_color (trace_line b) = ''#ff7f0e''"
    unfolding same ab by (simp_all add: COLOR_PALETTE_def)
  with r0 ab show ?thesis by (simp add: created_traces_def)
qed

text \<open>
  Claim C6, amended.  For every input mapping, \<open>create_plot\<close> in view mode \<open>Both\<close>
  returns exactly two traces per series: the index-value trace, named
  \<open><series> (Index)\<close>, in dotted style (Plotly \<open>dash = 'dot'\<close>, not a dashed line), on
  the primary axis \<open>y\<close> titled \<open>Index Value\<close>, and the year-over-year trace, named
  \<open><series> (YoY %)\<close>, in solid style, on the secondary axis \<open>y2\<close> titled
  \<open>Year-over-Year Change (%)\<close>; both carry the colour assigned to the series.
\<close>

theorem both_mode_traces:
  assumes "distinct (map fst d)"
  shows "\<exists>fig. create_plot d ''Both'' = Inr fig \<and>
     length (fig_data fig) = 2 * length d \<and>
     layout_yaxis_title (fig_layout fig) = Some ''Index Value'' \<and>
     layout_yaxis2 (fig_layout fig)
       = Some \<lparr>yaxis2_overlaying = ''y'', yaxis2_side = ''right'',
               yaxis2_title = ''Year-over-Year Change (%)''\<rparr> \<and>
     (\<forall>i < length d.
        fig_data fig ! i =
          \<lparr>trace_x = df_index (snd (d ! i)),
           trace_y = map Some (df_value (snd (d ! i))),
           trace_name = fst (d ! i) @ '' (Index)'',
           trace_line = \<lparr>line_width = 2, line_color = COLOR_PALETTE ! (i mod 9),
                          line_dash = ''dot''\<rparr>,
           trace_yaxis = None\<rparr> \<and>
        trace_axis (fig_data fig ! i) = ''y'' \<and>
        fig_data fig ! (length d + i) =
          \<lparr>trace_x = df_index (snd (d ! i)),
           trace_y = calculate_yoy_change (snd (d ! i)),
           trace_name = fst (d ! i) @ '' (YoY %)'',
           trace_line = \<lparr>line_width = 2, line_color = COLOR_PALETTE ! (i mod 9),
                          line_dash = ''solid''\<rparr>,
           trace_yaxis = Some ''y2''\<rparr>)"
proof -
  from create_plot_fig [of d "''Both''"] obtain fig where
    r: "create_plot d ''Both'' = Inr fig" and
    t: "fig_data fig =
        map (\<lambda>(n, df). index_trace ''Both'' (the (series_colors (map fst d) n)) n df) d @
        map (\<lambda>(n, df). yoy_trace ''Both'' (the (series_colors (map fst d) n)) n df) d" and
    l: "fig_layout fig = update_titles (update_axes ''Both'' (fig_layout empty_figure))"
    by auto
  have len: "length (fig_data fig) = 2 * length d"
    unfolding t by simp
  have lay: "layout_yaxis_title (fig_layout fig) = Some ''Index Value''"
    "layout_yaxis2 (fig_layout fig)
       = Some \<lparr>yaxis2_overlaying = ''y'', yaxis2_side = ''right'',
               yaxis2_title = ''Year-over-Year Change (%)''\<rparr>"
    unfolding l by (simp_all add: update_titles_def update_axes_def)
  have tr: "\<forall>i < length d.
        fig_data fig ! i =
          \<lparr>trace_x = df_index (snd (d ! i)),
           trace_y = map Some (df_value (snd (d ! i))),
           trace_name = fst (d ! i) @ '' (Index)'',
           trace_line = \<lparr>line_width = 2, line_color = COLOR_PALETTE ! (i mod 9),
                          line_dash = ''dot''\<rparr>,
           trace_yaxis = None\<rparr> \<and>
        trace_axis (fig_data fig ! i) = ''y'' \<and>
        fig_data fig ! (length d + i) =
          \<lparr>trace_x = df_index (snd (d ! i)),
           trace_y = calculate_yoy_change (snd (d ! i)),
           trace_name = fst (d ! i) @ '' (YoY %)'',
           trace_line = \<lparr>line_width = 2, line_color = COLOR_PALETTE ! (i mod 9),
                          line_dash = ''solid''\<rparr>,
           trace_yaxis = Some ''y2''\<rparr>"
  proof (intro allI impI)
    fix i assume i: "i < length d"
    note b = both_traces [OF assms i, of "''Both''"]
    show "fig_data fig ! i =
          \<lparr>trace_x = df_index (snd (d ! i)),
           trace_y = map Some (df_value (snd (d ! i))),
           trace_name = fst (d ! i) @ '' (Index)'',
           trace_line = \<lparr>line_width = 2, line_color = COLOR_PALETTE ! (i mod 9),
                          line_dash = ''dot''\<rparr>,
           trace_yaxis = None\<rparr> \<and>
        trace_axis (fig_data fig ! i) = ''y'' \<and>
        fig_data fig ! (length d + i) =
          \<lparr>trace_x = df_index (snd (d ! i)),
           trace_y = calculate_yoy_change (snd (d ! i)),
           trace_name = fst (d ! i) @ '' (YoY %)'',
           trace_line = \<lparr>line_width = 2, line_color = COLOR_PALETTE ! (i mod 9),
                          line_dash = ''solid''\<rparr>,
           trace_yaxis = Some ''y2''\<rparr>"
      unfolding t b by (simp add: index_trace_def yoy_trace_def trace_axis_def)
  qed
  from r len lay tr show ?thesis by blast
qed


theorem both_mode_traces_witness:
  "length (created_traces [(''A'', [(0::nat, 100::real)])] ''Both'') = 2 \<and>
   trace_name (created_traces [(''A'', [(0::nat, 100::real)])] ''Both'' ! 0) = ''A (Index)'' \<and>
   trace_line (created_traces [(''A'', [(0::nat, 100::real)])] ''Both'' ! 0)
     = \<lparr>line_width = 2, line_color = ''#1f77b4'', line_dash = ''dot''\<rparr> \<and>
   trace_name (created_traces [(''A'', [(0::nat, 100::real)])] ''Both'' ! 1) = ''A (YoY %)'' \<and>
   trace_line (created_traces [(''A'', [(0::nat, 100::real)])] ''Both'' ! 1)
     = \<lparr>line_width = 2, line_color = ''#1f77b4'', line_dash = ''solid''\<rparr> \<and>
   trace_yaxis (created_traces [(''A'', [(0::nat, 100::real)])] ''Both'' ! 1) = Some ''y2''"
proof -
  let ?d = "[(''A'', [(0::nat, 100::real)])]"
  have dist: "distinct (map fst ?d)" by simp
  from both_mode_traces [OF dist] obtain fig where
    r: "create_plot ?d ''Both'' = Inr fig" and
    len: "length (fig_data fig) = 2 * length ?d" and
    tr: "\<forall>i < length ?d.
        fig_data fig ! i =
          \<lparr>trace_x = df_index (snd (?d ! i)),
           trace_y = map Some (df_value (snd (?d ! i))),
           trace_name = fst (?d ! i) @ '' (Index)'',
           trace_line = \<lparr>line_width = 2, line_color = COLOR_PALETTE ! (i mod 9),
                          line_dash = ''dot''\<rparr>,
           trace_yaxis = None\<rparr> \<and>
        trace_axis (fig_data fig ! i) = ''y'' \<and>
        fig_data fig ! (length ?d + i) =
          \<lparr>trace_x = df_index (snd (?d ! i)),
           trace_y = calculate_yoy_change (snd (?d ! i)),
           trace_name = fst (?d ! i) @ '' (YoY %)'',
           trace_line = \<lparr>line_width = 2, line_color = COLOR_PALETTE ! (i mod 9),
                          line_dash = ''solid''\<rparr>,
           trace_yaxis = Some ''y2''\<rparr>"
    by blast
  from r have c: "created_traces ?d ''Both'' = fig_data fig"
    by (simp add: created_traces_def)
  from tr [THEN spec, of 0] have
    "trace_name (fig_data fig ! 0) = ''A (Index)'' \<and>
     trace_line (fig_data fig ! 0)
       = \<lparr>line_width = 2, line_color = ''#1f77b4'', line_dash = ''dot''\<rparr> \<and>
     trace_name (fig_data fig ! 1) = ''A (YoY %)'' \<and>
     trace_line (fig_data fig ! 1)
       = \<lparr>line_width = 2, line_color = ''#1f77b4'', line_dash = ''solid''\<rparr> \<and>
     trace_yaxis (fig_data fig ! 1) = Some ''y2''"
    by (simp add: COLOR_PALETTE_def)
  with len show ?thesis unfolding c by simp
qed

text \<open>
  Claim C6 as stated asks for a dashed index-value trace; the source draws it dotted.
\<close>

theorem dashed_counterexample:
  "line_dash (trace_line (created_traces [(''A'', [(0::nat, 100::real)])] ''Both'' ! 0)) = ''dot'' \<and>
   line_dash (trace_line (created_traces [(''A'', [(0::nat, 100::real)])] ''Both'' ! 0)) \<noteq> ''dash''"
  unfolding created_traces_def by (subst create_plot_eq)+ (simp add: index_trace_def)

theorem trace_order_witness:
  "map trace_name (created_traces [(''A'', [(0::nat, 100::real)]), (''B'', [])] ''Both'')
     = [''A (Index)'', ''B (Index)'', ''A (YoY %)'', ''B (YoY %)'']"
proof -
  let ?d = "[(''A'', [(0::nat, 100::real)]), (''B'', [])]"
  from trace_order [of ?d "''Both''"] obtain fig where
    r: "create_plot ?d ''Both'' = Inr fig" and
    t: "map (\<lambda>t. (trace_name t, trace_x t, trace_y t)) (fig_data fig) =
       map (\<lambda>(n, df). (n @ '' (Index)'', df_index df, map Some (df_value df))) ?d @
       map (\<lambda>(n, df). (n @ '' (YoY %)'', df_index df, calculate_yoy_change df)) ?d"
    by auto
  have "map trace_name (fig_data fig)
      = map fst (map (\<lambda>t. (trace_name t, trace_x t, trace_y t)) (fig_data fig))"
    by simp
  also have "\<dots> = [''A (Index)'', ''B (Index)'', ''A (YoY %)'', ''B (YoY %)'']"
    unfolding t by simp
  finally show ?thesis using r by (simp add: created_traces_def)
qed

section \<open>Decoding: totality, dates, invariants\<close>

lemma strptime_valid: "strptime s = Inr d \<Longrightarrow> valid_date d"
  by (auto simp: strptime_def split: option.splits if_splits)

lemma date_of_param_Some:
  "date_of_param v = Some d \<longleftrightarrow> (\<exists>s. v = Some s \<and> 5 < length s \<and> strptime s = Inr d)"
  by (auto simp: date_of_param_def split: option.splits sum.splits)

lemma date_of_param_valid: "date_of_param v = Some d \<Longrightarrow> valid_date d"
  by (auto simp: date_of_param_Some dest: strptime_valid)

lemma DEFAULT_SERIES_in_catalog: "set DEFAULT_SERIES \<subseteq> set (map fst CPI_SERIES)"
  by (simp add: DEFAULT_SERIES_def CPI_SERIES_def)

lemma series_in_catalog:
  "set (series (get_url_params q)) \<subseteq> set (map fst CPI_SERIES)"
  using DEFAULT_SERIES_in_catalog
  by (auto simp: get_url_params_fields collect_series_filter in_CPI_SERIES_keys)

lemma series_nonempty: "series (get_url_params q) \<noteq> []"
  by (simp add: get_url_params_fields DEFAULT_SERIES_def)

lemma view_type_valid: "view_type (get_url_params q) \<in> set VIEW_TYPES"
  by (simp add: get_url_params_fields VIEW_TYPES_def split: option.splits)

text \<open>
  Claim C2.  \<open>get_url_params\<close> is total: for every query-parameter mapping the body
  of its \<open>try\<close> block returns (no exception reaches the handler), and the result has
  every field in its domain: the series are a non-empty list of catalog keys, the view
  type is one of the three labels, each date is a valid calendar date or \<open>None\<close> (for
  which the page substitutes its default).  Each field depends on its own parameter
  only, and an invalid or missing value of a parameter gives the default of that field.
\<close>

theorem decode_total:
  "get_url_params_try q = Inr (get_url_params q) \<and>
   set (series (get_url_params q)) \<subseteq> set (map fst CPI_SERIES) \<and>
   series (get_url_params q) \<noteq> [] \<and>
   view_type (get_url_params q) \<in> set VIEW_TYPES \<and>
   (\<forall>d. start_date (get_url_params q) = Some d \<longrightarrow> valid_date d) \<and>
   (\<forall>d. end_date (get_url_params q) = Some d \<longrightarrow> valid_date d) \<and>
   (\<forall>q'. qp_get q' ''start_date'' = qp_get q ''start_date'' \<longrightarrow>
         start_date (get_url_params q') = start_date (get_url_params q)) \<and>
   (\<forall>q'. qp_get q' ''end_date'' = qp_get q ''end_date'' \<longrightarrow>
         end_date (get_url_params q') = end_date (get_url_params q)) \<and>
   (\<forall>q'. qp_get_all q' ''series'' = qp_get_all q ''series'' \<longrightarrow>
         series (get_url_params q') = series (get_url_params q)) \<and>
   (\<forall>q'. qp_get q' ''view_type'' = qp_get q ''view_type'' \<longrightarrow>
         view_type (get_url_params q') = view_type (get_url_params q)) \<and>
   ((\<forall>s. qp_get q ''start_date'' = Some s \<longrightarrow> length s \<le> 5 \<or> strptime s = Inl ValueError) \<longrightarrow>
      start_date (get_url_params q) = None) \<and>
   ((\<forall>s. qp_get q ''end_date'' = Some s \<longrightarrow> length s \<le> 5 \<or> strptime s = Inl ValueError) \<longrightarrow>
      end_date (get_url_params q) = None) \<and>
   ((\<forall>s \<in> set (qp_get_all q ''series'').
        str_replace CHR ''+'' CHR '' '' s \<notin> set (map fst CPI_SERIES)) \<longrightarrow>
      series (get_url_params q) = [''All Items'', ''All Items Less Food and Energy'']) \<and>
   ((\<forall>v \<in> set VIEW_TYPES. qp_get q ''view_type'' \<noteq> Some v) \<longrightarrow>
      view_type (get_url_params q) = ''Index Values'')"
proof (intro conjI allI impI)
  show "get_url_params_try q = Inr (get_url_params q)"
    by (simp add: get_url_params_def get_url_params_try_Inr)
  show "set (series (get_url_params q)) \<subseteq> set (map fst CPI_SERIES)"
    by (rule series_in_catalog)
  show "series (get_url_params q) \<noteq> []" by (rule series_nonempty)
  show "view_type (get_url_params q) \<in> set VIEW_TYPES" by (rule view_type_valid)
next
  fix d assume "start_date (get_url_params q) = Some d"
  then show "valid_date d" by (simp add: get_url_params_fields date_of_param_valid)
next
  fix d assume "end_date (get_url_params q) = Some d"
  then show "valid_date d" by (simp add: get_url_params_fields date_of_param_valid)
next
  fix q' assume "qp_get q' ''start_date'' = qp_get q ''start_date''"
  then show "start_date (get_url_params q') = start_date (get_url_params q)"
    by (simp add: get_url_params_fields)
next
  fix q' assume "qp_get q' ''end_date'' = qp_get q ''end_date''"
  then show "end_date (get_url_params q') = end_date (get_url_params q)"
    by (simp add: get_url_params_fields)
next
  fix q' assume "qp_get_all q' ''series'' = qp_get_all q ''series''"
  then show "series (get_url_params q') = series (get_url_params q)"
    by (simp add: get_url_params_fields)
next
  fix q' assume "qp_get q' ''view_type'' = qp_get q ''view_type''"
  then show "view_type (get_url_params q') = view_type (get_url_params q)"
    by (simp add: get_url_params_fields)
next
  assume "\<forall>s. qp_get q ''start_date'' = Some s \<longrightarrow> length s \<le> 5 \<or> strptime s = Inl ValueError"
  then show "start_date (get_url_params q) = None"
    by (auto simp: get_url_params_fields date_of_param_def split: option.splits sum.splits)
next
  assume "\<forall>s. qp_get q ''end_date'' = Some s \<longrightarrow> length s \<le> 5 \<or> strptime s = Inl ValueError"
  then show "end_date (get_url_params q) = None"
    by (auto simp: get_url_params_fields date_of_param_def split: option.splits sum.splits)
next
  assume "\<forall>s \<in> set (qp_get_all q ''series'').
        str_replace CHR ''+'' CHR '' '' s \<notin> set (map fst CPI_SERIES)"
  then have "filter in_CPI_SERIES (map (str_replace CHR ''+'' CHR '' '') (qp_get_all q ''series'')) = []"
    by (auto simp: filter_empty_conv in_CPI_SERIES_keys)
  then show "series (get_url_params q) = [''All Items'', ''All Items Less Food and Energy'']"
    by (simp add: get_url_params_fields collect_series_filter DEFAULT_SERIES_def)
next
  assume "\<forall>v \<in> set VIEW_TYPES. qp_get q ''view_type'' \<noteq> Some v"
  then show "view_type (get_url_params q) = ''Index Values''"
    by (auto simp: get_url_params_fields split: option.splits)
qed

lemmas strptime_eval =
  strptime_def strptime_match_def digit_of_def nonzero_digit_of_def valid_date_def
  days_in_month_def is_leap_def

theorem decode_total_witness:
  "get_url_params [(''start_date'', ''garbage!''), (''series'', ''Bogus''),
                   (''view_type'', ''x''), (''end_date'', ''2024-02-30'')]
     = \<lparr>start_date = None, end_date = None,
        series = [''All Items'', ''All Items Less Food and Energy''],
        view_type = ''Index Values''\<rparr>"
proof -
  let ?q = "[(''start_date'', ''garbage!''), (''series'', ''Bogus''),
             (''view_type'', ''x''), (''end_date'', ''2024-02-30'')]"
  note t = decode_total [of ?q]
  have g: "qp_get ?q ''start_date'' = Some ''garbage!''"
    "qp_get ?q ''end_date'' = Some ''2024-02-30''"
    "qp_get ?q ''view_type'' = Some ''x''"
    "qp_get_all ?q ''series'' = [''Bogus'']"
    by (simp_all add: qp_get_def qp_get_all_def)
  have p: "strptime ''garbage!'' = Inl ValueError" "strptime ''2024-02-30'' = Inl ValueError"
    by (simp_all add: strptime_eval)
  from t g p have a: "start_date (get_url_params ?q) = None" by simp
  from t g p have b: "end_date (get_url_params ?q) = None" by simp
  have "\<forall>s \<in> set (qp_get_all ?q ''series'').
          str_replace CHR ''+'' CHR '' '' s \<notin> set (map fst CPI_SERIES)"
    unfolding g by (simp add: CPI_SERIES_def)
  with t have c: "series (get_url_params ?q) = [''All Items'', ''All Items Less Food and Energy'']"
    by blast
  have "\<forall>v \<in> set VIEW_TYPES. qp_get ?q ''view_type'' \<noteq> Some v"
    unfolding g by (simp add: VIEW_TYPES_def)
  with t have d: "view_type (get_url_params ?q) = ''Index Values''" by blast
  from a b c d show ?thesis by (cases "get_url_params ?q") simp
qed

lemma toordinal_20261104: "toordinal \<lparr>year = 2026, month = 11, day = 4\<rparr> = 739924"
  by (simp add: toordinal_def days_before_year_def days_before_month_def DAYS_BEFORE_MONTH_def
        is_leap_def)

lemma fromordinal_738099: "fromordinal 738099 = \<lparr>year = 2021, month = 11, day = 5\<rparr>"
  by (simp add: fromordinal_def DAYS_BEFORE_MONTH_def Let_def)

lemma minus_1825_from_20261104:
  "date_minus_days \<lparr>year = 2026, month = 11, day = 4\<rparr> 1825
     = Inr \<lparr>year = 2021, month = 11, day = 5\<rparr>"
  by (simp add: date_minus_days_def toordinal_20261104 MAXORDINAL_def fromordinal_738099)

lemma parse_date_param_io_eq:
  "parse_date_param_io invalid v =
     (Inr (date_of_param v),
      (case v of None \<Rightarrow> []
       | Some s \<Rightarrow> if 5 < length s \<and> strptime s = Inl ValueError then [invalid s] else []))"
proof (cases v)
  case None
  then show ?thesis by (simp add: parse_date_param_io_def date_of_param_def)
next
  case (Some s)
  show ?thesis
  proof (cases "strptime s")
    case (Inl e)
    then have "e = ValueError" by (rule strptime_only_ValueError)
    with Inl Some show ?thesis by (auto simp: parse_date_param_io_def date_of_param_def)
  next
    case (Inr d)
    with Some show ?thesis by (auto simp: parse_date_param_io_def date_of_param_def)
  qed
qed

lemma get_url_params_io_eq:
  "get_url_params_io q =
     (get_url_params q,
      (case qp_get q ''start_date'' of None \<Rightarrow> []
       | Some s \<Rightarrow> if 5 < length s \<and> strptime s = Inl ValueError
                  then [Invalid_start_date_format s] else []) @
      (case qp_get q ''end_date'' of None \<Rightarrow> []
       | Some s \<Rightarrow> if 5 < length s \<and> strptime s = Inl ValueError
                  then [Invalid_end_date_format s] else []))"
  by (simp add: get_url_params_io_def get_url_params_io_try_def parse_date_param_io_eq
        get_url_params_fields Let_def VIEW_TYPES_def split: option.splits)

text \<open>
  Claim C8, amended.  For every \<open>start_date\<close> or \<open>end_date\<close> query value,
  \<open>get_url_params\<close> attempts the parse only when the string is longer than five
  characters: a missing or shorter value leaves the field \<open>None\<close> and shows nothing;
  a longer one gives the date \<open>strptime\<close> accepts or, on its \<open>ValueError\<close>, leaves
  the field \<open>None\<close> and shows the warning of that field.  No error propagates, and
  where the field is \<open>None\<close> the page uses its default: 1825 days (\<open>365 * 5\<close>) before
  today for the start, today for the end.
\<close>

theorem date_param_gate:
  "get_url_params_io q =
     (get_url_params q,
      (case qp_get q ''start_date'' of None \<Rightarrow> []
       | Some s \<Rightarrow> if 5 < length s \<and> strptime s = Inl ValueError
                  then [Invalid_start_date_format s] else []) @
      (case qp_get q ''end_date'' of None \<Rightarrow> []
       | Some s \<Rightarrow> if 5 < length s \<and> strptime s = Inl ValueError
                  then [Invalid_end_date_format s] else [])) \<and>
   (start_date (get_url_params q) = Some d \<longleftrightarrow>
      (\<exists>s. qp_get q ''start_date'' = Some s \<and> 5 < length s \<and> strptime s = Inr d)) \<and>
   (end_date (get_url_params q) = Some d \<longleftrightarrow>
      (\<exists>s. qp_get q ''end_date'' = Some s \<and> 5 < length s \<and> strptime s = Inr d)) \<and>
   (start_date (get_url_params q) = Some d \<longrightarrow>
      default_start now (get_url_params q) = Inr d) \<and>
   (start_date (get_url_params q) = None \<longrightarrow>
      default_start now (get_url_params q) = date_minus_days now 1825) \<and>
   (end_date (get_url_params q) = Some d \<longrightarrow> default_end now (get_url_params q) = d) \<and>
   (end_date (get_url_params q) = None \<longrightarrow> default_end now (get_url_params q) = now)"
proof -
  have a: "start_date (get_url_params q) = Some d \<longleftrightarrow>
      (\<exists>s. qp_get q ''start_date'' = Some s \<and> 5 < length s \<and> strptime s = Inr d)"
    by (simp add: get_url_params_fields date_of_param_Some)
  have b: "end_date (get_url_params q) = Some d \<longleftrightarrow>
      (\<exists>s. qp_get q ''end_date'' = Some s \<and> 5 < length s \<and> strptime s = Inr d)"
    by (simp add: get_url_params_fields date_of_param_Some)
  have c: "start_date p = Some d \<longrightarrow> default_start now p = Inr d"
    "start_date p = None \<longrightarrow> default_start now p = date_minus_days now 1825"
    "end_date p = Some d \<longrightarrow> default_end now p = d"
    "end_date p = None \<longrightarrow> default_end now p = now" for p
    by (simp_all add: default_start_def default_end_def)
  from get_url_params_io_eq [of q] a b c [of "get_url_params q"] show ?thesis by blast
qed

theorem date_param_gate_witness:
  "get_url_params_io [(''start_date'', ''abcde''), (''end_date'', ''abcdef'')]
     = (get_url_params [(''start_date'', ''abcde''), (''end_date'', ''abcdef'')],
        [Invalid_end_date_format ''abcdef'']) \<and>
   start_date (get_url_params [(''start_date'', ''abcde''), (''end_date'', ''abcdef'')]) = None \<and>
   default_start \<lparr>year = 2026, month = 11, day = 4\<rparr>
       (get_url_params [(''start_date'', ''abcde''), (''end_date'', ''abcdef'')])
     = Inr \<lparr>year = 2021, month = 11, day = 5\<rparr> \<and>
   end_date (get_url_params [(''start_date'', ''abcde''), (''end_date'', ''abcdef'')]) = None \<and>
   default_end \<lparr>year = 2026, month = 11, day = 4\<rparr>
       (get_url_params [(''start_date'', ''abcde''), (''end_date'', ''abcdef'')])
     = \<lparr>year = 2026, month = 11, day = 4\<rparr>"
proof -
  let ?q = "[(''start_date'', ''abcde''), (''end_date'', ''abcdef'')]"
  let ?now = "\<lparr>year = 2026, month = 11, day = 4\<rparr>"
  have g: "qp_get ?q ''start_date'' = Some ''abcde''" "qp_get ?q ''end_date'' = Some ''abcdef''"
    by (simp_all add: qp_get_def qp_get_all_def)
  have p: "strptime ''abcdef'' = Inl ValueError"
    by (simp add: strptime_eval)
  have n: "\<not> (\<exists>s. Some ''abcdef'' = Some s \<and> 5 < length s \<and> strptime s = Inr e)" for e
    using p by auto
  note t = date_param_gate [of ?q _ ?now]
  from t [of ?now] have w: "get_url_params_io ?q
      = (get_url_params ?q, [Invalid_end_date_format ''abcdef''])"
    unfolding g by (simp add: p)
  have s: "start_date (get_url_params ?q) = None"
  proof (cases "start_date (get_url_params ?q)")
    case None
    then show ?thesis .
  next
    case (Some e)
    with t [of e] show ?thesis unfolding g by simp
  qed
  have e: "end_date (get_url_params ?q) = None"
  proof (cases "end_date (get_url_params ?q)")
    case None
    then show ?thesis .
  next
    case (Some e)
    with t [of e] n [of e] show ?thesis unfolding g by simp
  qed
  from t [of ?now] s have ds: "default_start ?now (get_url_params ?q)
      = date_minus_days ?now 1825" by blast
  from t [of ?now] e have de: "default_end ?now (get_url_params ?q) = ?now" by blast
  from w s e ds de show ?thesis by (simp add: minus_1825_from_20261104)
qed

text \<open>
  Claim C8 as stated gives the default start as five years before today.  On
  2026-11-04 the source's default is 2021-11-05, one day after the date five years
  earlier, because the 1825 days do not count the leap day of 2024.
\<close>

theorem five_years_counterexample:
  "default_start \<lparr>year = 2026, month = 11, day = 4\<rparr> (get_url_params [(''start_date'', ''soon'')])
     = Inr \<lparr>year = 2021, month = 11, day = 5\<rparr> \<and>
   default_start \<lparr>year = 2026, month = 11, day = 4\<rparr> (get_url_params [(''start_date'', ''soon'')])
     \<noteq> Inr \<lparr>year = 2026 - 5, month = 11, day = 4\<rparr>"
proof -
  have "date_of_param (qp_get [(''start_date'', ''soon'')] ''start_date'') = None"
    by (simp add: qp_get_def qp_get_all_def date_of_param_def)
  then have "default_start \<lparr>year = 2026, month = 11, day = 4\<rparr>
        (get_url_params [(''start_date'', ''soon'')])
      = date_minus_days \<lparr>year = 2026, month = 11, day = 4\<rparr> 1825"
    by (simp add: default_start_def get_url_params_fields)
  then show ?thesis by (simp add: minus_1825_from_20261104)
qed




section \<open>Dates: \<open>strptime\<close> after \<open>strftime\<close>\<close>

lemma digit_of_digit_char: "n < 10 \<Longrightarrow> digit_of (digit_char n) = Some n"
  by (simp add: digit_of_def digit_char_def)

lemma match_Y_digits:
  "a < 10 \<Longrightarrow> b < 10 \<Longrightarrow> c < 10 \<Longrightarrow> e < 10 \<Longrightarrow>
   match_Y (digit_char a # digit_char b # digit_char c # digit_char e # r)
     = Some (1000 * a + 100 * b + 10 * c + e, r)"
  by (simp add: digit_of_digit_char)

lemma match_m_digits:
  "p < 10 \<Longrightarrow> q < 10 \<Longrightarrow>
   match_m (digit_char p # digit_char q # r) =
     (if p = 1 \<and> q \<le> 2 then Some (10 + q, r)
      else if p = 0 \<and> q \<noteq> 0 then Some (q, r)
      else if p \<noteq> 0 then Some (p, digit_char q # r)
      else None)"
  by (simp add: digit_of_digit_char)

lemma match_d_digits:
  "p < 10 \<Longrightarrow> q < 10 \<Longrightarrow>
   match_d (digit_char p # digit_char q # r) =
     (if p = 3 \<and> q \<le> 1 then Some (30 + q, r)
      else if p = 1 \<or> p = 2 then Some (10 * p + q, r)
      else if p = 0 \<and> q \<noteq> 0 then Some (q, r)
      else if p \<noteq> 0 then Some (p, digit_char q # r)
      else None)"
  by (simp add: digit_of_digit_char)

lemma decimal4:
  assumes y: "(y::nat) \<le> 9999"
  shows "1000 * (y div 1000 mod 10) + 100 * (y div 100 mod 10) + 10 * (y div 10 mod 10)
             + y mod 10 = y"
proof -
  from y have a: "y div 1000 mod 10 = y div 1000" by simp
  have b: "y mod 1000 = 100 * (y div 100 mod 10) + y mod 100"
    using mod_mult2_eq [of y 100 10] by simp
  have c: "y mod 100 = 10 * (y div 10 mod 10) + y mod 10"
    using mod_mult2_eq [of y 10 10] by simp
  have d: "y = 1000 * (y div 1000) + y mod 1000" by simp
  from a b c d show ?thesis by linarith
qed

lemma match_Y_pad4: "y \<le> 9999 \<Longrightarrow> match_Y (pad4 y @ r) = Some (y, r)"
proof -
  assume y: "y \<le> 9999"
  have "match_Y (pad4 y @ r)
      = Some (1000 * (y div 1000 mod 10) + 100 * (y div 100 mod 10) + 10 * (y div 10 mod 10)
               + y mod 10, r)"
    unfolding pad4_def append_Cons append_Nil by (rule match_Y_digits) simp_all
  then show ?thesis unfolding decimal4 [OF y] .
qed

lemma pad2_digits: "n < 100 \<Longrightarrow> pad2 n = [digit_char (n div 10), digit_char (n mod 10)]"
  by (simp add: pad2_def)

lemma match_m_pad2: "1 \<le> m \<Longrightarrow> m \<le> 12 \<Longrightarrow> match_m (pad2 m @ r) = Some (m, r)"
proof -
  assume m: "1 \<le> m" "m \<le> 12"
  then have p: "pad2 m = [digit_char (m div 10), digit_char (m mod 10)]"
    by (simp add: pad2_digits)
  from m have "m div 10 < 10" "m mod 10 < 10" by simp_all
  note e = match_m_digits [OF this, of r]
  show ?thesis
  proof (cases "m < 10")
    case True
    with m have "m div 10 = 0" "m mod 10 = m" "m \<noteq> 0" by simp_all
    then show ?thesis unfolding p append_Cons append_Nil e by simp
  next
    case False
    with m have "m div 10 = 1 \<and> m mod 10 \<le> 2 \<and> 10 + m mod 10 = m" by arith
    then show ?thesis unfolding p append_Cons append_Nil e by simp
  qed
qed

lemma match_d_pad2: "1 \<le> d \<Longrightarrow> d \<le> 31 \<Longrightarrow> match_d (pad2 d @ r) = Some (d, r)"
proof -
  assume m: "1 \<le> d" "d \<le> 31"
  then have p: "pad2 d = [digit_char (d div 10), digit_char (d mod 10)]"
    by (simp add: pad2_digits)
  from m have "d div 10 < 10" "d mod 10 < 10" by simp_all
  note e = match_d_digits [OF this, of r]
  have v: "10 * (d div 10) + d mod 10 = d" by simp
  consider "d < 10" | "10 \<le> d" "d < 30" | "30 \<le> d" by linarith
  then show ?thesis
  proof cases
    case 1
    with m have "d div 10 = 0" "d mod 10 = d" "d \<noteq> 0" by simp_all
    then show ?thesis unfolding p append_Cons append_Nil e by simp
  next
    case 2
    then have "d div 10 = 1 \<or> d div 10 = 2" by arith
    with v show ?thesis unfolding p append_Cons append_Nil e by auto
  next
    case 3
    with m have "d div 10 = 3 \<and> d mod 10 \<le> 1 \<and> 30 + d mod 10 = d" by arith
    then show ?thesis unfolding p append_Cons append_Nil e by simp
  qed
qed

lemma days_in_month_le: "days_in_month y m \<le> 31"
  by (simp add: days_in_month_def)

lemma strptime_strftime: "valid_date d \<Longrightarrow> strptime (strftime d) = Inr d"
proof -
  assume v: "valid_date d"
  then have y: "year d \<le> 9999" and m: "1 \<le> month d" "month d \<le> 12"
    and dd: "1 \<le> day d" "day d \<le> 31"
    using days_in_month_le [of "year d" "month d"] by (auto simp: valid_date_def)
  have "strptime_match (strftime d) = Some \<lparr>year = year d, month = month d, day = day d\<rparr>"
    using match_Y_pad4 [OF y] match_m_pad2 [OF m] match_d_pad2 [OF dd, of "[]"]
    by (simp add: strptime_match_def strftime_def)
  then have "strptime_match (strftime d) = Some d" by simp
  with v show ?thesis by (simp add: strptime_def)
qed

lemma length_strftime: "length (strftime d) = 10"
  by (simp add: strftime_def pad4_def pad2_def)

lemma date_of_param_strftime: "valid_date d \<Longrightarrow> date_of_param (Some (strftime d)) = Some d"
  by (simp add: date_of_param_def length_strftime strptime_strftime)

section \<open>Quoting and parsing the query string\<close>

lemma of_char_hex_digit:
  "n < 16 \<Longrightarrow> (of_char (hex_digit n) :: nat) = (if n < 10 then 48 + n else 55 + n)"
  by (simp add: hex_digit_def)

lemma hex_value_hex_digit: "n < 16 \<Longrightarrow> hex_value (hex_digit n) = Some n"
  by (simp add: hex_value_def of_char_hex_digit)

lemma hex_digit_not_special:
  assumes "n < 16"
  shows "hex_digit n \<noteq> CHR ''&''" "hex_digit n \<noteq> CHR ''=''" "hex_digit n \<noteq> CHR ''+''"
    "hex_digit n \<noteq> CHR ''%''"
proof -
  have k: "(of_char (hex_digit n) :: nat) \<ge> 48" using assms by (simp add: of_char_hex_digit)
  have "hex_digit n = c \<Longrightarrow> (of_char c :: nat) \<ge> 48" for c using k by auto
  then show "hex_digit n \<noteq> CHR ''&''" "hex_digit n \<noteq> CHR ''=''" "hex_digit n \<noteq> CHR ''+''"
    "hex_digit n \<noteq> CHR ''%''"
    using assms by (auto simp: of_char_hex_digit dest!: arg_cong [where f = "of_char :: char \<Rightarrow> nat"] split: if_splits)
qed

lemma always_safe_not_special:
  assumes "always_safe c"
  shows "c \<noteq> CHR ''&''" "c \<noteq> CHR ''=''" "c \<noteq> CHR ''+''" "c \<noteq> CHR ''%''" "c \<noteq> CHR '' ''"
  using assms by (auto simp: always_safe_def)

lemma of_char_div_16: "(of_char (c::char) :: nat) div 16 < 16"
  using nat_of_char_less_256 [of c] by arith

lemma char_of_hex_pair:
  "char_of (16 * ((of_char (c::char) :: nat) div 16) + (of_char c :: nat) mod 16) = c"
  by simp

lemma unquote_plain: "c \<noteq> CHR ''%'' \<Longrightarrow> unquote (c # r) = c # unquote r"
  by (cases r rule: unquote.cases) simp_all

lemma unquote_escape:
  "hex_value h = Some a \<Longrightarrow> hex_value l = Some b \<Longrightarrow>
   unquote (CHR ''%'' # h # l # r) = char_of (16 * a + b) # unquote r"
  by simp

lemma str_replace_append:
  "str_replace a b (xs @ ys) = str_replace a b xs @ str_replace a b ys"
  by (simp add: str_replace_map)

lemma str_replace_absent: "a \<notin> set s \<Longrightarrow> str_replace a b s = s"
  by (induction s) auto

lemma unquote_plus_quote_char:
  "unquote (str_replace CHR ''+'' CHR '' '' (quote_char c) @ r) = c # unquote r"
proof (cases "c = CHR '' ''")
  case True
  then show ?thesis by (simp add: quote_char_def unquote_plain)
next
  case False
  show ?thesis
  proof (cases "always_safe c")
    case True
    with False always_safe_not_special [OF True] show ?thesis
      by (simp add: quote_char_def unquote_plain)
  next
    case unsafe: False
    let ?h = "hex_digit ((of_char c :: nat) div 16)" and ?l = "hex_digit ((of_char c :: nat) mod 16)"
    have h: "hex_value ?h = Some ((of_char c :: nat) div 16)"
      by (rule hex_value_hex_digit) (rule of_char_div_16)
    have l: "hex_value ?l = Some ((of_char c :: nat) mod 16)"
      by (rule hex_value_hex_digit) simp
    have n: "?h \<noteq> CHR ''+''" "?l \<noteq> CHR ''+''"
      using hex_digit_not_special(3) [of "(of_char c :: nat) div 16"]
        hex_digit_not_special(3) [of "(of_char c :: nat) mod 16"] of_char_div_16 [of c]
      by simp_all
    from False unsafe n have "str_replace CHR ''+'' CHR '' '' (quote_char c) = [CHR ''%'', ?h, ?l]"
      by (simp add: quote_char_def)
    then show ?thesis
      using unquote_escape [OF h l, of r] char_of_hex_pair [of c] by simp
  qed
qed

lemma unquote_plus_quote_plus: "unquote_plus (quote_plus s) = s"
proof -
  have "unquote (str_replace CHR ''+'' CHR '' '' (quote_plus s)) = s"
  proof (induction s)
    case Nil
    show ?case by (simp add: quote_plus_def)
  next
    case (Cons c s)
    have "quote_plus (c # s) = quote_char c @ quote_plus s" by (simp add: quote_plus_def)
    then show ?case
      using unquote_plus_quote_char [of c "str_replace CHR ''+'' CHR '' '' (quote_plus s)"] Cons.IH
      by (simp add: str_replace_append)
  qed
  then show ?thesis by (simp add: unquote_plus_def)
qed

lemma quote_char_no_separator:
  "CHR ''&'' \<notin> set (quote_char c)" "CHR ''='' \<notin> set (quote_char c)"
  using always_safe_not_special [of c]
    hex_digit_not_special [of "(of_char c :: nat) div 16"]
    hex_digit_not_special [of "(of_char c :: nat) mod 16"] of_char_div_16 [of c]
  by (auto simp: quote_char_def)

lemma quote_plus_no_separator:
  "CHR ''&'' \<notin> set (quote_plus s)" "CHR ''='' \<notin> set (quote_plus s)"
  using quote_char_no_separator by (auto simp: quote_plus_def)

lemma quote_char_nonempty: "quote_char c \<noteq> []"
  by (simp add: quote_char_def)

lemma quote_plus_empty: "quote_plus s = [] \<longleftrightarrow> s = []"
  by (cases s) (simp_all add: quote_plus_def quote_char_nonempty)

lemma urlencode_item_fields: "urlencode_item it = map encode_field (item_fields it)"
  by (cases it rule: urlencode_item.cases) (simp_all add: encode_field_def)

lemma urlencode_fields:
  "urlencode params = str_join ''&'' (map encode_field (query_fields params))"
proof -
  have "urlencode_item = (\<lambda>it. map encode_field (item_fields it))"
    by (rule ext) (rule urlencode_item_fields)
  then show ?thesis
    by (simp add: urlencode_def query_fields_def map_concat comp_def)
qed

lemma str_split_nonempty: "str_split c s \<noteq> []"
  by (induction s) (auto split: list.splits)

lemma str_split_absent: "c \<notin> set a \<Longrightarrow> str_split c a = [a]"
  by (induction a) auto

lemma str_split_append:
  "c \<notin> set a \<Longrightarrow> str_split c (a @ c # r) = a # str_split c r"
  by (induction a) auto

lemma str_split_join:
  "items \<noteq> [] \<Longrightarrow> \<forall>i \<in> set items. c \<notin> set i \<Longrightarrow>
   str_split c (str_join [c] items) = items"
proof (induction items)
  case Nil
  then show ?case by simp
next
  case (Cons x xs)
  show ?case
  proof (cases xs)
    case Nil
    with Cons.prems show ?thesis by (simp add: str_split_absent)
  next
    case (Cons y ys)
    with Cons.prems Cons.IH show ?thesis by (simp add: str_split_append)
  qed
qed

lemma encode_field_no_amp: "CHR ''&'' \<notin> set (encode_field f)"
  by (simp add: encode_field_def quote_plus_no_separator)

lemma parse_field_encode_field:
  "parse_field kbv (encode_field (k, v)) = (if v \<noteq> [] \<or> kbv then [(k, v)] else [])"
proof -
  let ?P = "\<lambda>c. c \<noteq> CHR ''=''"
  have t: "takeWhile ?P (quote_plus k @ CHR ''='' # quote_plus v) = quote_plus k"
    using quote_plus_no_separator(2) [of k] by (subst takeWhile_append2) auto
  have d: "dropWhile ?P (quote_plus k @ CHR ''='' # quote_plus v) = CHR ''='' # quote_plus v"
    using quote_plus_no_separator(2) [of k] by (subst dropWhile_append2) auto
  show ?thesis
    by (simp add: parse_field_def encode_field_def t d unquote_plus_quote_plus quote_plus_empty
          Let_def)
qed

lemma parse_fields_encoded:
  "concat (map (parse_field kbv) (map encode_field fs)) = filter (\<lambda>f. snd f \<noteq> [] \<or> kbv) fs"
  by (induction fs) (auto simp: parse_field_encode_field)

lemma parse_qsl_urlencode:
  "parse_qsl kbv (urlencode params) = filter (\<lambda>f. snd f \<noteq> [] \<or> kbv) (query_fields params)"
proof (cases "query_fields params = []")
  case True
  then show ?thesis by (simp add: urlencode_fields parse_qsl_def parse_field_def)
next
  case False
  then have "str_split CHR ''&'' (str_join ''&'' (map encode_field (query_fields params)))
      = map encode_field (query_fields params)"
    by (intro str_split_join) (auto simp: encode_field_no_amp)
  then show ?thesis
    by (simp only: urlencode_fields parse_qsl_def parse_fields_encoded)
qed

lemma query_fields_share_params:
  "query_fields (share_params s e sel view) =
     (''start_date'', strftime s) # (''end_date'', strftime e) #
     map (Pair ''series'') sel @ [(''view_type'', view)]"
  by (simp add: query_fields_def share_params_def)

lemma strftime_nonempty: "strftime d \<noteq> []"
  using length_strftime [of d] by auto

lemma parsed_share_params:
  assumes "\<forall>x \<in> set sel. x \<noteq> []"
  shows "parse_qsl kbv (urlencode (share_params s e sel view)) =
     (''start_date'', strftime s) # (''end_date'', strftime e) #
     map (Pair ''series'') sel @ (if view \<noteq> [] \<or> kbv then [(''view_type'', view)] else [])"
proof -
  from assms have "filter (\<lambda>f. snd f \<noteq> [] \<or> kbv) (map (Pair ''series'') sel)
      = map (Pair ''series'') sel"
    by (induction sel) auto
  then show ?thesis
    by (simp add: parse_qsl_urlencode query_fields_share_params strftime_nonempty)
qed

lemma qp_get_all_series_fields:
  "qp_get_all (map (Pair ''series'') sel) ''series'' = sel"
  "k \<noteq> ''series'' \<Longrightarrow> qp_get_all (map (Pair ''series'') sel) k = []"
  by (induction sel) (auto simp: qp_get_all_def)

lemma qp_get_all_append: "qp_get_all (a @ b) k = qp_get_all a k @ qp_get_all b k"
  by (simp add: qp_get_all_def)

lemma qp_get_all_Nil: "qp_get_all [] k = []"
  by (simp add: qp_get_all_def)

lemma qp_get_all_Cons:
  "qp_get_all (f # b) k = (if fst f = k then snd f # qp_get_all b k else qp_get_all b k)"
  by (simp add: qp_get_all_def)

lemma decode_share_params:
  assumes "\<forall>x \<in> set sel. x \<noteq> []"
  shows "get_url_params (parse_qsl kbv (urlencode (share_params s e sel view))) =
     \<lparr>start_date = date_of_param (Some (strftime s)),
      end_date = date_of_param (Some (strftime e)),
      series = (if collect_series [] sel = [] then DEFAULT_SERIES else collect_series [] sel),
      view_type = (if view \<in> set VIEW_TYPES then view else ''Index Values'')\<rparr>"
proof -
  let ?L = "parse_qsl kbv (urlencode (share_params s e sel view))"
  note L = parsed_share_params [OF assms, of kbv s e view]
  have a: "qp_get_all ?L ''start_date'' = [strftime s]"
    "qp_get_all ?L ''end_date'' = [strftime e]"
    "qp_get_all ?L ''series'' = sel"
    "qp_get_all ?L ''view_type'' = (if view \<noteq> [] \<or> kbv then [view] else [])"
    unfolding L by (simp_all add: qp_get_all_Nil qp_get_all_Cons qp_get_all_append qp_get_all_series_fields)
  have g: "qp_get ?L ''start_date'' = Some (strftime s)"
    "qp_get ?L ''end_date'' = Some (strftime e)"
    "qp_get ?L ''view_type'' = (if view \<noteq> [] \<or> kbv then Some view else None)"
    unfolding qp_get_def a by simp_all
  have "[] \<notin> set VIEW_TYPES" by (simp add: VIEW_TYPES_def)
  then have v: "view = [] \<Longrightarrow> view \<notin> set VIEW_TYPES" by auto
  show ?thesis
    unfolding get_url_params_fields g a using v by auto
qed

section \<open>The share URL round trip\<close>

lemma catalog_names_plain:
  "name \<in> set (map fst CPI_SERIES) \<Longrightarrow> CHR ''+'' \<notin> set name \<and> name \<noteq> []"
  by (auto simp: CPI_SERIES_def)

lemma collect_series_catalog:
  "set sel \<subseteq> set (map fst CPI_SERIES) \<Longrightarrow> collect_series [] sel = sel"
proof -
  assume s: "set sel \<subseteq> set (map fst CPI_SERIES)"
  then have "map (str_replace CHR ''+'' CHR '' '') sel = sel"
    by (intro map_idI str_replace_absent) (use catalog_names_plain in blast)
  moreover from s have "filter in_CPI_SERIES sel = sel"
    by (auto simp: in_CPI_SERIES_keys filter_id_conv)
  ultimately show ?thesis by (simp add: collect_series_filter)
qed

lemma hd_str_split: "hd (str_split c s) = takeWhile (\<lambda>x. x \<noteq> c) s"
  by (induction s) (auto split: list.splits simp: str_split_nonempty)

lemma base_url_no_query: "CHR ''?'' \<notin> set (base_url q)"
proof -
  have "CHR ''?'' \<notin> set (takeWhile (\<lambda>x. x \<noteq> CHR ''?'') u)" for u
    by (auto dest: set_takeWhileD)
  then show ?thesis by (simp add: base_url_def hd_str_split Let_def)
qed

text \<open>
  Claim C1, amended.  For every view state whose dates are calendar dates, whose
  selected series are a non-empty list of catalog keys and whose view mode is one of
  the three labels, the share URL is the base URL (which contains no \<open>?\<close>), a
  \<open>?\<close> and the encoded query string, and parsing that query string and decoding
  it with \<open>get_url_params\<close> gives back the dates (at day granularity), the
  selected series in order and the view mode.
\<close>

theorem share_url_round_trip:
  assumes "valid_date d_start" and "valid_date d_end"
    and "selected \<noteq> []" and "set selected \<subseteq> set (map fst CPI_SERIES)"
    and "view \<in> set VIEW_TYPES"
  shows "generate_share_url q d_start d_end selected view
           = base_url q @ ''?'' @ urlencode (share_params d_start d_end selected view) \<and>
         CHR ''?'' \<notin> set (base_url q) \<and>
         get_url_params (parse_qsl kbv (urlencode (share_params d_start d_end selected view)))
           = \<lparr>start_date = Some d_start, end_date = Some d_end,
              series = selected, view_type = view\<rparr>"
proof -
  from assms(4) have ne: "\<forall>x \<in> set selected. x \<noteq> []"
    using catalog_names_plain by blast
  from assms(4) have c: "collect_series [] selected = selected"
    by (rule collect_series_catalog)
  show ?thesis
    using assms(1,2,3,5)
    by (simp add: generate_share_url_def base_url_no_query decode_share_params [OF ne] c
          date_of_param_strftime)
qed

text \<open>
  Claim C10.  When the selected-series list given to \<open>generate_share_url\<close> is empty,
  the encoded query string consists of the \<open>start_date\<close>, \<open>end_date\<close> and
  \<open>view_type\<close> fields only, the parsed query has no \<open>series\<close> value, and decoding
  it yields the default pair of series, not the empty selection.
\<close>

theorem empty_selection_not_preserved:
  "urlencode (share_params d_start d_end [] view)
     = ''start_date='' @ quote_plus (strftime d_start) @ ''&end_date=''
         @ quote_plus (strftime d_end) @ ''&view_type='' @ quote_plus view \<and>
   qp_get_all (parse_qsl kbv (urlencode (share_params d_start d_end [] view))) ''series'' = [] \<and>
   series (get_url_params (parse_qsl kbv (urlencode (share_params d_start d_end [] view))))
     = [''All Items'', ''All Items Less Food and Energy'']"
proof -
  have q: "quote_plus ''start_date'' = ''start_date''" "quote_plus ''end_date'' = ''end_date''"
    "quote_plus ''view_type'' = ''view_type''"
    by (simp_all add: quote_plus_def quote_char_def always_safe_def)
  have a: "urlencode (share_params d_start d_end [] view)
     = ''start_date='' @ quote_plus (strftime d_start) @ ''&end_date=''
         @ quote_plus (strftime d_end) @ ''&view_type='' @ quote_plus view"
    by (simp add: urlencode_def share_params_def q)
  have e: "\<forall>x \<in> set ([] :: string list). x \<noteq> []" by simp
  have b: "qp_get_all (parse_qsl kbv (urlencode (share_params d_start d_end [] view))) ''series'' = []"
    unfolding parsed_share_params [OF e]
    by (simp add: qp_get_all_Nil qp_get_all_Cons qp_get_all_append)
  have c: "series (get_url_params (parse_qsl kbv (urlencode (share_params d_start d_end [] view))))
     = [''All Items'', ''All Items Less Food and Energy'']"
    unfolding decode_share_params [OF e] by (simp add: DEFAULT_SERIES_def)
  from a b c show ?thesis by blast
qed

lemma digit_char_literals:
  "digit_char 0 = CHR ''0''" "digit_char 1 = CHR ''1''" "digit_char 2 = CHR ''2''"
  "digit_char 3 = CHR ''3''" "digit_char 4 = CHR ''4''" "digit_char 5 = CHR ''5''"
  "digit_char 6 = CHR ''6''" "digit_char 7 = CHR ''7''" "digit_char 8 = CHR ''8''"
  "digit_char 9 = CHR ''9''" "digit_char (Suc 0) = CHR ''1''"
  by (simp_all add: digit_char_def char_of_eq_iff)

lemmas encode_eval =
  strftime_def pad4_def pad2_def digit_char_literals quote_plus_def quote_char_def always_safe_def

theorem share_url_round_trip_witness:
  "generate_share_url [] \<lparr>year = 2020, month = 1, day = 5\<rparr> \<lparr>year = 2024, month = 12, day = 31\<rparr>
     [''All Items'', ''Housing''] ''Both''
     = ''?start_date=2020-01-05&end_date=2024-12-31&series=All+Items&series=Housing&view_type=Both''
   \<and> get_url_params (parse_qsl True
         ''start_date=2020-01-05&end_date=2024-12-31&series=All+Items&series=Housing&view_type=Both'')
     = \<lparr>start_date = Some \<lparr>year = 2020, month = 1, day = 5\<rparr>,
        end_date = Some \<lparr>year = 2024, month = 12, day = 31\<rparr>,
        series = [''All Items'', ''Housing''], view_type = ''Both''\<rparr>"
proof -
  let ?s = "\<lparr>year = 2020, month = 1, day = 5\<rparr>" and ?e = "\<lparr>year = 2024, month = 12, day = 31\<rparr>"
  have v: "valid_date ?s" "valid_date ?e"
    by (simp_all add: valid_date_def days_in_month_def is_leap_def)
  have n: "[''All Items'', ''Housing''] \<noteq> []"
    "set [''All Items'', ''Housing''] \<subseteq> set (map fst CPI_SERIES)"
    "''Both'' \<in> set VIEW_TYPES"
    by (simp_all add: CPI_SERIES_def VIEW_TYPES_def)
  have u: "urlencode (share_params ?s ?e [''All Items'', ''Housing''] ''Both'')
     = ''start_date=2020-01-05&end_date=2024-12-31&series=All+Items&series=Housing&view_type=Both''"
    by (simp add: urlencode_def share_params_def encode_eval)
  have b: "base_url [] = []"
    by (simp add: base_url_def qp_get_def qp_get_all_def)
  from share_url_round_trip [OF v n, of "[]" True] show ?thesis
    unfolding u b by simp
qed

text \<open>
  Claim C1 as stated covers the empty selection, whose members are trivially catalog
  keys; it does not come back from the round trip.
\<close>

theorem empty_selection_counterexample:
  "get_url_params (parse_qsl True (urlencode
      (share_params \<lparr>year = 2020, month = 1, day = 5\<rparr> \<lparr>year = 2024, month = 12, day = 31\<rparr>
         [] ''Both'')))
   \<noteq> \<lparr>start_date = Some \<lparr>year = 2020, month = 1, day = 5\<rparr>,
       end_date = Some \<lparr>year = 2024, month = 12, day = 31\<rparr>,
       series = [], view_type = ''Both''\<rparr>"
proof -
  have e: "\<forall>x \<in> set ([] :: string list). x \<noteq> []" by simp
  show ?thesis
    unfolding decode_share_params [OF e] by (simp add: DEFAULT_SERIES_def)
qed

theorem empty_selection_not_preserved_witness:
  "urlencode (share_params \<lparr>year = 2024, month = 1, day = 1\<rparr>
      \<lparr>year = 2024, month = 12, day = 31\<rparr> [] ''Both'')
     = ''start_date=2024-01-01&end_date=2024-12-31&view_type=Both'' \<and>
   series (get_url_params (parse_qsl True
      ''start_date=2024-01-01&end_date=2024-12-31&view_type=Both''))
     = [''All Items'', ''All Items Less Food and Energy'']"
proof -
  let ?s = "\<lparr>year = 2024, month = 1, day = 1\<rparr>" and ?e = "\<lparr>year = 2024, month = 12, day = 31\<rparr>"
  note t = empty_selection_not_preserved [of ?s ?e "''Both''" True]
  have u: "urlencode (share_params ?s ?e [] ''Both'')
     = ''start_date=2024-01-01&end_date=2024-12-31&view_type=Both''"
    by (simp add: urlencode_def share_params_def encode_eval)
  from t have "series (get_url_params (parse_qsl True
      ''start_date=2024-01-01&end_date=2024-12-31&view_type=Both''))
     = [''All Items'', ''All Items Less Food and Energy'']"
    unfolding u by (rule conjunct2 [THEN conjunct2])
  with u show ?thesis by (rule conjI)
qed

end
